theory Spec2Isabelle
  imports Main "HOL-Library.Word"
begin

section \<open>The uvue server: request pipeline, plugin hooks, start and stop\<close>

text \<open>
  A shallow embedding of \<^verbatim>\<open>packages/@uvue/server/src/Server.ts\<close>. One request is run
  on an explicit state: the objects the request's hooks and renderer calls can reach (the
  response context, the request context, the transport response \<^verbatim>\<open>res\<close> and the
  server's current \<^verbatim>\<open>this.renderer\<close> reference) and, beside it, a log of the calls
  the pipeline itself makes. Hooks and renderer methods are functions on the reachable
  objects that may throw after having changed them; they cannot touch the log.

  An awaited call is modelled by what the world looks like when the pipeline resumes, so the
  function of a hook or of a renderer method includes whatever else ran while the pipeline
  was suspended on it (a development rebuild assigning \<^verbatim>\<open>this.renderer\<close>, for one).
  A call that is not awaited (those of \<^verbatim>\<open>invoke\<close>) is modelled by the world at its
  return; what a promise it returned does later is not followed.
  Hooks do not change the plugin list and do not reassign \<^verbatim>\<open>context.res\<close>.
\<close>

subsection \<open>JavaScript strings\<close>

text \<open>
  A JavaScript string is a sequence of UTF-16 code units and \<^verbatim>\<open>.length\<close> counts code
  units. \<^verbatim>\<open>res.end(body)\<close> writes the string in UTF-8; \<open>utf8_byteLength\<close> is the
  number of bytes of that encoding (what Node's \<^verbatim>\<open>Buffer.byteLength(body)\<close>
  returns): one byte below U+0080, two below U+0800, four for a surrogate pair, three for
  any other code unit.
\<close>

type_synonym js_string = "16 word list"

definition js :: "string \<Rightarrow> js_string" where
  "js s = map (\<lambda>c. of_nat (of_char c)) s"

definition unit_bytes :: "16 word \<Rightarrow> nat" where
  "unit_bytes u = (if u < 0x80 then 1 else if u < 0x800 then 2 else 3)"

definition high_surrogate :: "16 word \<Rightarrow> bool" where
  "high_surrogate u \<longleftrightarrow> 0xD800 \<le> u \<and> u \<le> 0xDBFF"

definition low_surrogate :: "16 word \<Rightarrow> bool" where
  "low_surrogate u \<longleftrightarrow> 0xDC00 \<le> u \<and> u \<le> 0xDFFF"

fun utf8_byteLength :: "js_string \<Rightarrow> nat" where
  "utf8_byteLength [] = 0"
| "utf8_byteLength [u] = unit_bytes u"
| "utf8_byteLength (u # v # us) =
     (if high_surrogate u \<and> low_surrogate v then 4 + utf8_byteLength us
      else unit_bytes u + utf8_byteLength (v # us))"

subsection \<open>Data\<close>

datatype js_error = Error string | ERR_HTTP_HEADERS_SENT | ERR_HTTP_INVALID_STATUS_CODE

datatype header_value = HStr string | HNum nat

text \<open>\<^verbatim>\<open>IResponseContext\<close>: \<^verbatim>\<open>{ body: string; status: number }\<close>.\<close>

record IResponseContext =
  body :: js_string
  status :: nat

text \<open>
  Node's \<^verbatim>\<open>http.ServerResponse\<close>, as far as the server uses it. It is not part of the
  repository; its behaviour is the documented one. \<^verbatim>\<open>setHeader\<close> throws
  \<^verbatim>\<open>ERR_HTTP_HEADERS_SENT\<close> once the headers have been sent. \<^verbatim>\<open>end\<close> does nothing
  on a response that is finished already; otherwise, if the headers are still to be sent, it
  sends them with \<^verbatim>\<open>writeHead(this.statusCode)\<close>, which throws
  \<^verbatim>\<open>ERR_HTTP_INVALID_STATUS_CODE\<close> for a status code outside 100..999 and then leaves
  the response as it was; then it writes the chunk and sets \<^verbatim>\<open>finished\<close>.
\<close>

record ServerResponse =
  finished :: bool
  headersSent :: bool
  headers :: "string \<rightharpoonup> header_value"
  statusCode :: nat
  written :: "js_string list"

definition setHeader :: "string \<Rightarrow> header_value \<Rightarrow> ServerResponse \<Rightarrow> js_error + ServerResponse" where
  "setHeader name v r =
     (if headersSent r then Inl ERR_HTTP_HEADERS_SENT
      else Inr (r\<lparr>headers := (headers r)(name \<mapsto> v)\<rparr>))"

definition valid_status :: "nat \<Rightarrow> bool" where
  "valid_status c \<longleftrightarrow> 100 \<le> c \<and> c \<le> 999"

definition res_end :: "js_string \<Rightarrow> ServerResponse \<Rightarrow> js_error + ServerResponse" where
  "res_end chunk r =
     (if finished r then Inr r
      else if headersSent r then
        Inr (r\<lparr>finished := True, written := written r @ [chunk]\<rparr>)
      else if valid_status (statusCode r) then
        Inr (r\<lparr>finished := True, headersSent := True, written := written r @ [chunk]\<rparr>)
      else Inl ERR_HTTP_INVALID_STATUS_CODE)"

text \<open>
  \<^verbatim>\<open>IRequestContext\<close>, with the fields \<^verbatim>\<open>renderMiddleware\<close> gives it and the
  \<^verbatim>\<open>statusCode\<close> that \<^verbatim>\<open>sendResponse\<close> reads. The fields \<^verbatim>\<open>req\<close> and \<^verbatim>\<open>res\<close> are references; the one
  transport response they point to is the \<open>res\<close> of the world below. The optional
  \<^verbatim>\<open>statusCode\<close> is \<open>ctx_statusCode\<close> here (\<open>None\<close> when undefined), since the
  transport response has a field of that name too.
\<close>

record IRequestContext =
  data :: "(string \<times> string) list"
  redirected :: bool
  url :: string
  ctx_statusCode :: "nat option"

record IncomingMessage =
  req_url :: string

text \<open>
  What one request's hooks and renderer calls can read and write. \<open>this_renderer\<close> is the
  server's \<^verbatim>\<open>this.renderer\<close>: a reference into the table of renderer objects.
\<close>

record world =
  response :: IResponseContext
  "context" :: IRequestContext
  res :: ServerResponse
  this_renderer :: nat

text \<open>
  The calls the pipeline makes, in the order it makes them. A call of \<^verbatim>\<open>res.end(body)\<close>
  by the send step is logged as \<open>Ev_end\<close> when it returns and as \<open>Ev_end_threw\<close> when it
  throws.
\<close>

datatype event =
    Ev_hook string nat
  | Ev_renderSPAPage nat
  | Ev_render nat
  | Ev_renderSSRPage nat
  | Ev_end js_string
  | Ev_end_threw js_string js_error
  | Ev_consola_error js_error

record pstate =
  wld :: world
  events :: "event list"

text \<open>How a statement completes: normally, by \<^verbatim>\<open>return\<close>, or by a throw.\<close>

datatype completion = Normal | Return | Throw js_error

text \<open>
  The arguments of a hook call. The response context, the request context and the server
  are passed by reference; the error of \<^verbatim>\<open>routeError\<close> is a value.
\<close>

datatype hook_arg = ArgErr js_error | ArgResponse | ArgContext | ArgServer

text \<open>
  What a call of a hook comes to: it returns (a value, or a promise that resolves), it
  throws, or it returns a promise that rejects. The world that comes with it is the one the
  caller goes on with: for an awaited call, the world when the promise has settled; for a
  call that is not awaited, the world when the call has returned.
\<close>

datatype hook_result = Returned | Threw js_error | Rejects js_error

type_synonym hook = "hook_arg list \<Rightarrow> world \<Rightarrow> world \<times> hook_result"

text \<open>
  A plugin is an object; \<open>methods p name\<close> is \<^verbatim>\<open>plugin[name]\<close> when that is a function
  and \<open>None\<close> otherwise. \<open>plugin_id\<close> only labels the plugin in the log.
\<close>

record plugin =
  plugin_id :: nat
  methods :: "string \<rightharpoonup> hook"

record Renderer =
  renderSPAPage :: "world \<Rightarrow> world \<times> (js_error + js_string)"
  render :: "world \<Rightarrow> world \<times> (js_error + js_string)"
  renderSSRPage :: "js_string \<Rightarrow> world \<Rightarrow> world \<times> (js_error + js_string)"

text \<open>
  The server as a request sees it: the plugin stack, \<^verbatim>\<open>options.spaPaths\<close>, the renderer
  objects by reference, and whether \<^verbatim>\<open>process.env.NODE_ENV\<close> is \<^verbatim>\<open>'test'\<close>.
\<close>

record Server =
  plugins :: "plugin list"
  spaPaths :: "string list option"
  renderers :: "nat \<Rightarrow> Renderer"
  env_test :: bool

subsection \<open>Glob matching\<close>

text \<open>
  \<^verbatim>\<open>micromatch.some(str, patterns)\<close> is a library call. The model follows the library on
  patterns written with literal characters, \<^verbatim>\<open>?\<close>, \<^verbatim>\<open>*\<close>, \<^verbatim>\<open>**\<close> and a leading
  \<^verbatim>\<open>!\<close>. Pattern and string are cut at the slashes. Within a segment \<^verbatim>\<open>?\<close> is one
  character and \<^verbatim>\<open>*\<close> any run of characters; a segment of the string that is empty is
  matched by an empty segment only, and one that begins with a dot only by a pattern segment
  that begins with a dot. A segment \<^verbatim>\<open>**\<close> stands for any number of segments, none
  included, that do not begin with a dot. A leading \<^verbatim>\<open>!\<close> negates the pattern. Braces,
  brackets, extended globs and escapes are not modelled: their characters stand for
  themselves here.
\<close>

fun segments :: "string \<Rightarrow> string list" where
  "segments [] = [[]]"
| "segments (c # cs) =
     (if c = CHR ''/'' then [] # segments cs
      else (case segments cs of [] \<Rightarrow> [[c]] | seg # rest \<Rightarrow> (c # seg) # rest))"

fun wildcard_match :: "string \<Rightarrow> string \<Rightarrow> bool" where
  "wildcard_match [] s = (s = [])"
| "wildcard_match (p # ps) [] = (p = CHR ''*'' \<and> wildcard_match ps [])"
| "wildcard_match (p # ps) (c # cs) =
     (if p = CHR ''*'' then
        (if wildcard_match ps (c # cs) then True else wildcard_match (p # ps) cs)
      else if p = CHR ''?'' then wildcard_match ps cs
      else c = p \<and> wildcard_match ps cs)"

definition begins_with_dot :: "string \<Rightarrow> bool" where
  "begins_with_dot s = (case s of [] \<Rightarrow> False | c # cs \<Rightarrow> c = CHR ''.'')"

definition segment_match :: "string \<Rightarrow> string \<Rightarrow> bool" where
  "segment_match p s =
     (if s = [] then p = []
      else if begins_with_dot s then begins_with_dot p \<and> wildcard_match p s
      else wildcard_match p s)"

fun segments_match :: "string list \<Rightarrow> string list \<Rightarrow> bool" where
  "segments_match [] ss = (ss = [])"
| "segments_match (p # ps) [] = (p = ''**'' \<and> segments_match ps [])"
| "segments_match (p # ps) (s # ss) =
     (if p = ''**'' then
        (if segments_match ps (s # ss) then True
         else if begins_with_dot s then False
         else segments_match (p # ps) ss)
      else segment_match p s \<and> segments_match ps ss)"

definition glob_match :: "string \<Rightarrow> string \<Rightarrow> bool" where
  "glob_match p s =
     (case p of
        [] \<Rightarrow> segments_match (segments p) (segments s)
      | c # q \<Rightarrow>
          if c = CHR ''!'' then \<not> segments_match (segments q) (segments s)
          else segments_match (segments p) (segments s))"

definition micromatch_some :: "string \<Rightarrow> string list \<Rightarrow> bool" where
  "micromatch_some str patterns = list_ex (\<lambda>p. glob_match p str) patterns"

text \<open>The path of a request URL: what precedes the query string.\<close>

definition url_path :: "string \<Rightarrow> string" where
  "url_path u = takeWhile (\<lambda>c. c \<noteq> CHR ''?'') u"

subsection \<open>Plugins: \<^verbatim>\<open>addPlugin\<close>, \<^verbatim>\<open>invoke\<close>, \<^verbatim>\<open>invokeAsync\<close>\<close>

text \<open>
  \<^verbatim>\<open>addPlugin\<close> pushes the plugin on the stack. Its call of \<^verbatim>\<open>plugin.install\<close> acts
  on the adapter (it registers middleware), which is outside this state.
\<close>

definition addPlugin :: "plugin \<Rightarrow> Server \<Rightarrow> Server" where
  "addPlugin p srv = srv\<lparr>plugins := plugins srv @ [p]\<rparr>"

text \<open>
  The loop \<^verbatim>\<open>for (const plugin of this.plugins)\<close> of \<^verbatim>\<open>invoke\<close> and of
  \<^verbatim>\<open>invokeAsync\<close>; \<open>awaited\<close> tells the two apart. A plugin without the method is
  skipped and a hook that throws ends the loop. \<^verbatim>\<open>invokeAsync\<close> awaits each call, so for it
  a promise that rejects is a throw. \<^verbatim>\<open>invoke\<close> does not look at what the call returns:
  a promise that rejects is dropped and the loop goes on.
\<close>

fun for_plugins :: "bool \<Rightarrow> plugin list \<Rightarrow> string \<Rightarrow> hook_arg list \<Rightarrow> pstate \<Rightarrow> pstate \<times> completion" where
  "for_plugins awaited [] name args s = (s, Normal)"
| "for_plugins awaited (p # ps) name args s =
     (case methods p name of
        None \<Rightarrow> for_plugins awaited ps name args s
      | Some h \<Rightarrow>
          (case h args (wld s) of
             (wd, Threw e) \<Rightarrow>
               (s\<lparr>wld := wd, events := events s @ [Ev_hook name (plugin_id p)]\<rparr>, Throw e)
           | (wd, Rejects e) \<Rightarrow>
               if awaited then
                 (s\<lparr>wld := wd, events := events s @ [Ev_hook name (plugin_id p)]\<rparr>, Throw e)
               else
                 for_plugins awaited ps name args
                   (s\<lparr>wld := wd, events := events s @ [Ev_hook name (plugin_id p)]\<rparr>)
           | (wd, Returned) \<Rightarrow>
               for_plugins awaited ps name args
                 (s\<lparr>wld := wd, events := events s @ [Ev_hook name (plugin_id p)]\<rparr>)))"

definition invoke :: "Server \<Rightarrow> string \<Rightarrow> hook_arg list \<Rightarrow> pstate \<Rightarrow> pstate \<times> completion" where
  "invoke srv name args s = for_plugins False (plugins srv) name args s"

definition invokeAsync :: "Server \<Rightarrow> string \<Rightarrow> hook_arg list \<Rightarrow> pstate \<Rightarrow> pstate \<times> completion" where
  "invokeAsync srv name args s = for_plugins True (plugins srv) name args s"

subsection \<open>The request pipeline: \<^verbatim>\<open>renderMiddleware\<close> and \<^verbatim>\<open>sendResponse\<close>\<close>

text \<open>Sequencing: the next statement runs when the one before completed normally.\<close>

definition and_then :: "pstate \<times> completion \<Rightarrow> (pstate \<Rightarrow> pstate \<times> completion) \<Rightarrow> pstate \<times> completion" where
  "and_then m f = (case m of (s, Normal) \<Rightarrow> f s | (s, c) \<Rightarrow> (s, c))"

text \<open>\<^verbatim>\<open>statusCode || response.status\<close>: an undefined or zero \<^verbatim>\<open>statusCode\<close> is falsy.\<close>

definition status_or :: "nat option \<Rightarrow> nat \<Rightarrow> nat" where
  "status_or sc st = (case sc of None \<Rightarrow> st | Some c \<Rightarrow> if c = 0 then st else c)"

definition sendResponse :: "pstate \<Rightarrow> pstate \<times> completion" where
  "sendResponse s =
     (let wd = wld s; b = body (response wd) in
      case setHeader ''Content-Type'' (HStr ''text/html; charset=utf-8'') (res wd) of
        Inl e \<Rightarrow> (s, Throw e)
      | Inr r1 \<Rightarrow>
          (case setHeader ''Content-Length'' (HNum (length b)) r1 of
             Inl e \<Rightarrow> (s\<lparr>wld := wd\<lparr>res := r1\<rparr>\<rparr>, Throw e)
           | Inr r2 \<Rightarrow>
               (let r3 = r2\<lparr>statusCode :=
                            status_or (ctx_statusCode (context wd)) (status (response wd))\<rparr>
                in case res_end b r3 of
                     Inl e \<Rightarrow>
                       (s\<lparr>wld := wd\<lparr>res := r3\<rparr>, events := events s @ [Ev_end_threw b e]\<rparr>,
                        Throw e)
                   | Inr r4 \<Rightarrow>
                       (s\<lparr>wld := wd\<lparr>res := r4\<rparr>, events := events s @ [Ev_end b]\<rparr>,
                        Normal))))"

text \<open>
  \<^verbatim>\<open>spaPaths && spaPaths.length && micromatch.some(context.url, spaPaths)\<close>
\<close>

definition is_spa :: "Server \<Rightarrow> world \<Rightarrow> bool" where
  "is_spa srv wd =
     (case spaPaths srv of
        None \<Rightarrow> False
      | Some pats \<Rightarrow> pats \<noteq> [] \<and> micromatch_some (url (context wd)) pats)"

text \<open>\<^verbatim>\<open>response.body = await this.renderer.renderSPAPage()\<close>\<close>

definition spa_branch :: "Server \<Rightarrow> pstate \<Rightarrow> pstate \<times> completion" where
  "spa_branch srv s =
     (let r = this_renderer (wld s) in
      case renderSPAPage (renderers srv r) (wld s) of
        (wd, Inl e) \<Rightarrow> (s\<lparr>wld := wd, events := events s @ [Ev_renderSPAPage r]\<rparr>, Throw e)
      | (wd, Inr html) \<Rightarrow>
          (s\<lparr>wld := wd\<lparr>response := (response wd)\<lparr>body := html\<rparr>\<rparr>,
             events := events s @ [Ev_renderSPAPage r]\<rparr>, Normal))"

text \<open>
  The SSR process: \<^verbatim>\<open>render\<close>, the \<^verbatim>\<open>return\<close> on a redirection, the
  \<^verbatim>\<open>beforeBuild\<close> hooks, \<^verbatim>\<open>renderSSRPage\<close>.
\<close>

definition ssr_render :: "Server \<Rightarrow> pstate \<Rightarrow> pstate \<times> completion" where
  "ssr_render srv s =
     (let r = this_renderer (wld s) in
      case render (renderers srv r) (wld s) of
        (wd, Inl e) \<Rightarrow> (s\<lparr>wld := wd, events := events s @ [Ev_render r]\<rparr>, Throw e)
      | (wd, Inr b) \<Rightarrow>
          (s\<lparr>wld := wd\<lparr>response := (response wd)\<lparr>body := b\<rparr>\<rparr>,
             events := events s @ [Ev_render r]\<rparr>,
           if redirected (context wd) then Return else Normal))"

definition ssr_build :: "Server \<Rightarrow> pstate \<Rightarrow> pstate \<times> completion" where
  "ssr_build srv s =
     (let r = this_renderer (wld s) in
      case renderSSRPage (renderers srv r) (body (response (wld s))) (wld s) of
        (wd, Inl e) \<Rightarrow> (s\<lparr>wld := wd, events := events s @ [Ev_renderSSRPage r]\<rparr>, Throw e)
      | (wd, Inr html) \<Rightarrow>
          (s\<lparr>wld := wd\<lparr>response := (response wd)\<lparr>body := html\<rparr>\<rparr>,
             events := events s @ [Ev_renderSSRPage r]\<rparr>, Normal))"

definition ssr_branch :: "Server \<Rightarrow> pstate \<Rightarrow> pstate \<times> completion" where
  "ssr_branch srv s =
     and_then (ssr_render srv s) (\<lambda>s1.
     and_then (invokeAsync srv ''beforeBuild'' [ArgResponse, ArgContext, ArgServer] s1)
       (ssr_build srv))"

text \<open>The body of the \<^verbatim>\<open>try\<close> block.\<close>

definition try_block :: "Server \<Rightarrow> pstate \<Rightarrow> pstate \<times> completion" where
  "try_block srv s =
     and_then (invokeAsync srv ''beforeRender'' [ArgContext, ArgServer] s) (\<lambda>s1.
       if finished (res (wld s1)) then (s1, Normal)
       else
         and_then (if is_spa srv (wld s1) then spa_branch srv s1 else ssr_branch srv s1) (\<lambda>s2.
         and_then (invokeAsync srv ''rendered'' [ArgResponse, ArgContext, ArgServer] s2)
           sendResponse))"

text \<open>The \<^verbatim>\<open>catch\<close> block, entered with the error caught.\<close>

definition log_error :: "Server \<Rightarrow> js_error \<Rightarrow> pstate \<Rightarrow> pstate" where
  "log_error srv err s =
     (if env_test srv then s else s\<lparr>events := events s @ [Ev_consola_error err]\<rparr>)"

definition default_error_response :: "pstate \<Rightarrow> pstate" where
  "default_error_response s =
     s\<lparr>wld := (wld s)\<lparr>response :=
          \<lparr>body = (if body (response (wld s)) = [] then js ''Server error''
                   else body (response (wld s))),
           status = 500\<rparr>\<rparr>\<rparr>"

definition catch_block :: "Server \<Rightarrow> js_error \<Rightarrow> pstate \<Rightarrow> pstate \<times> completion" where
  "catch_block srv err s =
     and_then
       (invokeAsync srv ''routeError'' [ArgErr err, ArgResponse, ArgContext, ArgServer]
          (log_error srv err s))
       (\<lambda>s1. if finished (res (wld s1)) then (s1, Normal)
             else sendResponse (default_error_response s1))"

definition try_catch :: "Server \<Rightarrow> pstate \<Rightarrow> pstate \<times> completion" where
  "try_catch srv s =
     (case try_block srv s of
        (s1, Throw err) \<Rightarrow> catch_block srv err s1
      | (s1, c) \<Rightarrow> (s1, c))"

text \<open>
  What the promise of \<^verbatim>\<open>renderMiddleware\<close> settles to: \<^verbatim>\<open>{ context, response }\<close>,
  \<^verbatim>\<open>undefined\<close> after the \<^verbatim>\<open>return\<close> in the SSR process, or a rejection.
\<close>

datatype settled =
    Resolved IRequestContext IResponseContext
  | Resolved_undefined
  | Rejected js_error

definition initial_state :: "nat \<Rightarrow> IncomingMessage \<Rightarrow> ServerResponse \<Rightarrow> pstate" where
  "initial_state rref req res0 =
     \<lparr>wld = \<lparr>response = \<lparr>body = [], status = 200\<rparr>,
             context = \<lparr>data = [], redirected = False, url = req_url req,
                        ctx_statusCode = None\<rparr>,
             res = res0,
             this_renderer = rref\<rparr>,
      events = []\<rparr>"

definition after_response :: "Server \<Rightarrow> pstate \<times> completion \<Rightarrow> pstate \<times> settled" where
  "after_response srv m =
     (case m of
        (s, Normal) \<Rightarrow>
          (case invoke srv ''afterResponse'' [ArgContext, ArgServer] s of
             (s', Throw e) \<Rightarrow> (s', Rejected e)
           | (s', _) \<Rightarrow> (s', Resolved (context (wld s')) (response (wld s'))))
      | (s, Return) \<Rightarrow> (s, Resolved_undefined)
      | (s, Throw e) \<Rightarrow> (s, Rejected e))"

text \<open>
  \<open>rref\<close> is the value of \<^verbatim>\<open>this.renderer\<close> when the request arrives.
\<close>

definition renderMiddleware :: "Server \<Rightarrow> nat \<Rightarrow> IncomingMessage \<Rightarrow> ServerResponse \<Rightarrow> pstate \<times> settled" where
  "renderMiddleware srv rref req res0 =
     after_response srv (try_catch srv (initial_state rref req res0))"

subsection \<open>Start and stop\<close>

text \<open>
  Modelled from the spec: the transport adapter (\<^verbatim>\<open>ConnectAdapter\<close>, \<^verbatim>\<open>IAdapter\<close>), whose
  source is not among the files. It is in one of the states unstarted, running, stopped;
  \<^verbatim>\<open>start()\<close> resolves once listening and fails with a bind error if the port is not
  available; \<^verbatim>\<open>stop()\<close> stops the listener, never fails and may be called in any state.
\<close>

datatype adapter_state = Unstarted | Running | Stopped

definition adapter_start :: "bool \<Rightarrow> adapter_state \<Rightarrow> adapter_state \<times> completion" where
  "adapter_start port_free a = (if port_free then (Running, Normal) else (a, Throw (Error ''BindError'')))"

definition adapter_stop :: "adapter_state \<Rightarrow> adapter_state" where
  "adapter_stop a = Stopped"

text \<open>
  The server's \<^verbatim>\<open>started\<close> flag and adapter, with the listeners the process holds for
  \<^verbatim>\<open>SIGINT\<close> and \<^verbatim>\<open>SIGTERM\<close> (their number) and a count of the calls of the
  adapter's \<^verbatim>\<open>stop()\<close>.
\<close>

record lifecycle =
  started :: bool
  adapter :: adapter_state
  adapter_stop_calls :: nat
  sigint_listeners :: nat
  sigterm_listeners :: nat

definition new_server :: lifecycle where
  "new_server = \<lparr>started = False, adapter = Unstarted, adapter_stop_calls = 0,
                 sigint_listeners = 0, sigterm_listeners = 0\<rparr>"

text \<open>
  \<^verbatim>\<open>start()\<close>. The \<^verbatim>\<open>beforeStart\<close> hooks and the set-up of the renderer act outside this
  state; \<open>setup\<close> is how they complete. After \<^verbatim>\<open>adapter.start()\<close> has resolved,
  \<^verbatim>\<open>started\<close> is set and one listener is registered for each of the two signals.
\<close>

definition start :: "completion \<Rightarrow> bool \<Rightarrow> lifecycle \<Rightarrow> lifecycle \<times> completion" where
  "start setup port_free l =
     (case setup of
        Throw e \<Rightarrow> (l, Throw e)
      | _ \<Rightarrow>
          (case adapter_start port_free (adapter l) of
             (a, Throw e) \<Rightarrow> (l\<lparr>adapter := a\<rparr>, Throw e)
           | (a, _) \<Rightarrow>
               (l\<lparr>adapter := a, started := True,
                   sigint_listeners := sigint_listeners l + 1,
                   sigterm_listeners := sigterm_listeners l + 1\<rparr>, Normal)))"

text \<open>
  \<^verbatim>\<open>stop()\<close>: \<^verbatim>\<open>if (this.started) { process.removeAllListeners('SIGINT');
  process.removeAllListeners('SIGTERM'); return this.adapter.stop(); }\<close>
\<close>

definition stop :: "lifecycle \<Rightarrow> lifecycle \<times> completion" where
  "stop l =
     (if started l then
        (l\<lparr>sigint_listeners := 0, sigterm_listeners := 0,
            adapter := adapter_stop (adapter l),
            adapter_stop_calls := adapter_stop_calls l + 1\<rparr>, Normal)
      else (l, Normal))"

subsection \<open>The specification's reading of a hook invocation\<close>

text \<open>
  The plugins that have the hook, in the order of the stack, are called one after the other,
  each on the state the one before left; a hook that fails ends the invocation. A hook fails
  when it throws, and also when it rejects if \<open>rejection_fails\<close> is set.
\<close>

definition has_hook :: "string \<Rightarrow> plugin \<Rightarrow> bool" where
  "has_hook name p \<longleftrightarrow> methods p name \<noteq> None"

definition log_hook :: "string \<Rightarrow> plugin \<Rightarrow> world \<Rightarrow> pstate \<Rightarrow> pstate" where
  "log_hook name p wd s = s\<lparr>wld := wd, events := events s @ [Ev_hook name (plugin_id p)]\<rparr>"

fun call_in_order :: "bool \<Rightarrow> string \<Rightarrow> hook_arg list \<Rightarrow> plugin list \<Rightarrow> pstate \<Rightarrow> pstate \<times> completion" where
  "call_in_order rejection_fails name args [] s = (s, Normal)"
| "call_in_order rejection_fails name args (p # ps) s =
     (case the (methods p name) args (wld s) of
        (wd, Returned) \<Rightarrow> call_in_order rejection_fails name args ps (log_hook name p wd s)
      | (wd, Threw e) \<Rightarrow> (log_hook name p wd s, Throw e)
      | (wd, Rejects e) \<Rightarrow>
          if rejection_fails then (log_hook name p wd s, Throw e)
          else call_in_order rejection_fails name args ps (log_hook name p wd s))"

subsection \<open>Example plugins, renderers and servers\<close>

definition note_hook :: hook where
  "note_hook args wd = (wd\<lparr>context := (context wd)\<lparr>data := (''seen'', ''yes'') # data (context wd)\<rparr>\<rparr>, Returned)"

definition throwing_hook :: hook where
  "throwing_hook args wd = (wd, Threw (Error ''boom''))"

definition null_renderer :: Renderer where
  "null_renderer =
     \<lparr>renderSPAPage = (\<lambda>wd. (wd, Inr (js ''<spa>''))),
      render = (\<lambda>wd. (wd, Inr (js ''<div>''))),
      renderSSRPage = (\<lambda>b wd. (wd, Inr (js ''<html>'' @ b)))\<rparr>"

text \<open>A hook that returns a promise which rejects.\<close>

definition rejecting_hook :: hook where
  "rejecting_hook args wd = (wd, Rejects (Error ''later''))"

definition plugins_with_rejection :: "plugin list" where
  "plugins_with_rejection =
     [\<lparr>plugin_id = 1, methods = [''afterResponse'' \<mapsto> note_hook]\<rparr>,
      \<lparr>plugin_id = 2, methods = Map.empty\<rparr>,
      \<lparr>plugin_id = 3, methods = [''afterResponse'' \<mapsto> rejecting_hook]\<rparr>,
      \<lparr>plugin_id = 4, methods = [''afterResponse'' \<mapsto> note_hook]\<rparr>]"

definition four_plugins :: "plugin list" where
  "four_plugins =
     [\<lparr>plugin_id = 1, methods = [''beforeRender'' \<mapsto> note_hook]\<rparr>,
      \<lparr>plugin_id = 2, methods = Map.empty\<rparr>,
      \<lparr>plugin_id = 3, methods = [''beforeRender'' \<mapsto> throwing_hook]\<rparr>,
      \<lparr>plugin_id = 4, methods = [''beforeRender'' \<mapsto> note_hook]\<rparr>]"

definition fresh_res :: ServerResponse where
  "fresh_res = \<lparr>finished = False, headersSent = False, headers = Map.empty, statusCode = 200, written = []\<rparr>"

definition server_of :: "plugin list \<Rightarrow> string list option \<Rightarrow> Server" where
  "server_of ps spa = \<lparr>plugins = ps, spaPaths = spa, renderers = (\<lambda>_. null_renderer), env_test = False\<rparr>"

definition failing_route_error_hook :: hook where
  "failing_route_error_hook args wd = (wd, Threw (Error ''again''))"

text \<open>A \<^verbatim>\<open>beforeRender\<close> hook that sets \<^verbatim>\<open>context.statusCode\<close> to 1000.\<close>

definition bad_status_hook :: hook where
  "bad_status_hook args wd = (wd\<lparr>context := (context wd)\<lparr>ctx_statusCode := Some 1000\<rparr>\<rparr>, Returned)"

definition bad_status_plugins :: "plugin list" where
  "bad_status_plugins = [\<lparr>plugin_id = 1, methods = [''beforeRender'' \<mapsto> bad_status_hook]\<rparr>]"

definition failing_plugins :: "plugin list" where
  "failing_plugins =
     [\<lparr>plugin_id = 1, methods = [''beforeRender'' \<mapsto> throwing_hook]\<rparr>,
      \<lparr>plugin_id = 2, methods = [''routeError'' \<mapsto> failing_route_error_hook]\<rparr>]"

definition noting_plugins :: "plugin list" where
  "noting_plugins =
     [\<lparr>plugin_id = 1, methods = [''beforeRender'' \<mapsto> note_hook, ''rendered'' \<mapsto> note_hook]\<rparr>,
      \<lparr>plugin_id = 2, methods = [''afterResponse'' \<mapsto> note_hook]\<rparr>]"

definition with_body :: "js_string \<Rightarrow> pstate \<Rightarrow> pstate" where
  "with_body b s = s\<lparr>wld := (wld s)\<lparr>response := (response (wld s))\<lparr>body := b\<rparr>\<rparr>\<rparr>"

definition failing_renderer :: Renderer where
  "failing_renderer =
     \<lparr>renderSPAPage = (\<lambda>wd. (wd, Inr (js ''<spa>''))),
      render = (\<lambda>wd. (wd, Inl (Error ''render failed''))),
      renderSSRPage = (\<lambda>b wd. (wd, Inr (js ''<html>'' @ b)))\<rparr>"

definition failing_render_server :: "plugin list \<Rightarrow> Server" where
  "failing_render_server ps =
     \<lparr>plugins = ps, spaPaths = None, renderers = (\<lambda>_. failing_renderer), env_test = False\<rparr>"

definition route_error_plugins :: "plugin list" where
  "route_error_plugins = [\<lparr>plugin_id = 1, methods = [''routeError'' \<mapsto> note_hook]\<rparr>]"


definition rejecting_route_error_plugins :: "plugin list" where
  "rejecting_route_error_plugins =
     [\<lparr>plugin_id = 1, methods = [''routeError'' \<mapsto> failing_route_error_hook]\<rparr>]"

definition rebuilt_renderer :: Renderer where
  "rebuilt_renderer =
     \<lparr>renderSPAPage = (\<lambda>wd. (wd, Inr (js ''<spa v2>''))),
      render = (\<lambda>wd. (wd, Inr (js ''<div v2>''))),
      renderSSRPage = (\<lambda>b wd. (wd, Inr (js ''<html v2>'' @ b)))\<rparr>"

text \<open>
  A \<^verbatim>\<open>beforeBuild\<close> hook during whose await a development rebuild assigns
  \<^verbatim>\<open>this.renderer\<close>.
\<close>

definition rebuild_during_hook :: hook where
  "rebuild_during_hook args wd = (wd\<lparr>this_renderer := 1\<rparr>, Returned)"

definition hot_swap_server :: Server where
  "hot_swap_server =
     \<lparr>plugins = [\<lparr>plugin_id = 1, methods = [''beforeBuild'' \<mapsto> rebuild_during_hook]\<rparr>],
      spaPaths = None,
      renderers = (\<lambda>i. if i = 0 then null_renderer else rebuilt_renderer),
      env_test = False\<rparr>"

text \<open>A \<^verbatim>\<open>beforeRender\<close> hook that sets \<^verbatim>\<open>context.redirected\<close> and writes nothing.\<close>

definition flag_redirect_hook :: hook where
  "flag_redirect_hook args wd = (wd\<lparr>context := (context wd)\<lparr>redirected := True\<rparr>\<rparr>, Returned)"

text \<open>A \<^verbatim>\<open>beforeRender\<close> hook that redirects: it sets the flag and ends the response.\<close>

definition redirect_hook :: hook where
  "redirect_hook args wd =
     (wd\<lparr>context := (context wd)\<lparr>redirected := True\<rparr>,
         res := (res wd)\<lparr>finished := True, headersSent := True, statusCode := 302,
                  headers := (headers (res wd))(''Location'' \<mapsto> HStr ''/login''),
                  written := written (res wd) @ [[]]\<rparr>\<rparr>, Returned)"

definition flagging_plugins :: "plugin list" where
  "flagging_plugins =
     [\<lparr>plugin_id = 1, methods = [''beforeRender'' \<mapsto> flag_redirect_hook]\<rparr>,
      \<lparr>plugin_id = 2, methods = [''beforeRender'' \<mapsto> note_hook, ''rendered'' \<mapsto> note_hook]\<rparr>]"

definition redirecting_plugins :: "plugin list" where
  "redirecting_plugins =
     [\<lparr>plugin_id = 1, methods = [''beforeRender'' \<mapsto> redirect_hook]\<rparr>,
      \<lparr>plugin_id = 2, methods = [''rendered'' \<mapsto> note_hook, ''afterResponse'' \<mapsto> note_hook]\<rparr>]"

definition after_response_failing_plugins :: "plugin list" where
  "after_response_failing_plugins =
     [\<lparr>plugin_id = 1, methods = [''afterResponse'' \<mapsto> throwing_hook]\<rparr>]"

subsection \<open>Observations on the log and on states\<close>

fun is_end :: "event \<Rightarrow> bool" where
  "is_end (Ev_end b) = True"
| "is_end _ = False"

text \<open>
  A hook or renderer method keeps an observation \<open>f\<close> of the world when the world it
  leaves has the value of \<open>f\<close> it found.
\<close>

definition hooks_keep :: "Server \<Rightarrow> (world \<Rightarrow> 'a) \<Rightarrow> bool" where
  "hooks_keep srv f \<longleftrightarrow>
     (\<forall>p\<in>set (plugins srv). \<forall>name h args wd.
        methods p name = Some h \<longrightarrow> f (fst (h args wd)) = f wd)"

definition renderers_keep :: "Server \<Rightarrow> (world \<Rightarrow> 'a) \<Rightarrow> bool" where
  "renderers_keep srv f \<longleftrightarrow>
     (\<forall>i wd b. f (fst (renderSPAPage (renderers srv i) wd)) = f wd
        \<and> f (fst (render (renderers srv i) wd)) = f wd
        \<and> f (fst (renderSSRPage (renderers srv i) b wd)) = f wd)"

fun is_renderer_call :: "event \<Rightarrow> bool" where
  "is_renderer_call (Ev_renderSPAPage r) = True"
| "is_renderer_call (Ev_render r) = True"
| "is_renderer_call (Ev_renderSSRPage r) = True"
| "is_renderer_call _ = False"

text \<open>
  The hook calls of one invocation leave the transport response alone: each call made
  returns the response it found. The function follows the loop of the invocation, so only
  the calls that are made count.
\<close>

fun hooks_leave_res :: "bool \<Rightarrow> plugin list \<Rightarrow> string \<Rightarrow> hook_arg list \<Rightarrow> pstate \<Rightarrow> bool" where
  "hooks_leave_res awaited [] name args s = True"
| "hooks_leave_res awaited (p # ps) name args s =
     (case methods p name of
        None \<Rightarrow> hooks_leave_res awaited ps name args s
      | Some h \<Rightarrow>
          (case h args (wld s) of
             (wd, Threw e) \<Rightarrow> res wd = res (wld s)
           | (wd, Rejects e) \<Rightarrow>
               res wd = res (wld s)
               \<and> (awaited \<or> hooks_leave_res awaited ps name args
                     (s\<lparr>wld := wd, events := events s @ [Ev_hook name (plugin_id p)]\<rparr>))
           | (wd, Returned) \<Rightarrow>
               res wd = res (wld s)
               \<and> hooks_leave_res awaited ps name args
                   (s\<lparr>wld := wd, events := events s @ [Ev_hook name (plugin_id p)]\<rparr>)))"

text \<open>The same for the renderer calls and hook calls of the two branches.\<close>

definition spa_leaves_res :: "Server \<Rightarrow> pstate \<Rightarrow> bool" where
  "spa_leaves_res srv s \<longleftrightarrow>
     res (fst (renderSPAPage (renderers srv (this_renderer (wld s))) (wld s))) = res (wld s)"

definition ssr_leaves_res :: "Server \<Rightarrow> pstate \<Rightarrow> bool" where
  "ssr_leaves_res srv s \<longleftrightarrow>
     res (fst (render (renderers srv (this_renderer (wld s))) (wld s))) = res (wld s)
     \<and> (snd (ssr_render srv s) = Normal \<longrightarrow>
          (let m = invokeAsync srv ''beforeBuild'' [ArgResponse, ArgContext, ArgServer]
                     (fst (ssr_render srv s))
           in hooks_leave_res True (plugins srv) ''beforeBuild'' [ArgResponse, ArgContext, ArgServer]
                (fst (ssr_render srv s))
              \<and> (snd m = Normal \<longrightarrow>
                   res (fst (renderSSRPage (renderers srv (this_renderer (wld (fst m))))
                               (body (response (wld (fst m)))) (wld (fst m))))
                     = res (wld (fst m)))))"

text \<open>
  Every hook call and renderer call made while the request in state \<open>s\<close> is handled leaves
  the transport response alone: those of the try block, those of the \<^verbatim>\<open>routeError\<close> hooks
  if the try block throws, and those of the \<^verbatim>\<open>afterResponse\<close> hooks if they are reached.
\<close>

definition try_leaves_res :: "Server \<Rightarrow> pstate \<Rightarrow> bool" where
  "try_leaves_res srv s \<longleftrightarrow>
     hooks_leave_res True (plugins srv) ''beforeRender'' [ArgContext, ArgServer] s
     \<and> (let m1 = invokeAsync srv ''beforeRender'' [ArgContext, ArgServer] s in
        snd m1 = Normal \<and> \<not> finished (res (wld (fst m1))) \<longrightarrow>
          (if is_spa srv (wld (fst m1)) then spa_leaves_res srv (fst m1)
           else ssr_leaves_res srv (fst m1))
          \<and> (let m2 = (if is_spa srv (wld (fst m1)) then spa_branch srv (fst m1)
                        else ssr_branch srv (fst m1))
             in snd m2 = Normal \<longrightarrow>
                  hooks_leave_res True (plugins srv) ''rendered''
                    [ArgResponse, ArgContext, ArgServer] (fst m2)))"

definition request_leaves_res :: "Server \<Rightarrow> pstate \<Rightarrow> bool" where
  "request_leaves_res srv s \<longleftrightarrow>
     try_leaves_res srv s
     \<and> (case try_block srv s of
          (s1, Throw e) \<Rightarrow>
            hooks_leave_res True (plugins srv) ''routeError''
              [ArgErr e, ArgResponse, ArgContext, ArgServer] (log_error srv e s1)
        | _ \<Rightarrow> True)
     \<and> (case try_catch srv s of
          (s2, Normal) \<Rightarrow>
            hooks_leave_res False (plugins srv) ''afterResponse'' [ArgContext, ArgServer] s2
        | _ \<Rightarrow> True)"

text \<open>
  The transport response is still open, with \<open>W\<close> written and the completed sends \<open>E\<close>
  logged; or it has been finished by one more completed send.
\<close>

definition response_open :: "js_string list \<Rightarrow> event list \<Rightarrow> pstate \<Rightarrow> bool" where
  "response_open W E s \<longleftrightarrow>
     \<not> finished (res (wld s)) \<and> \<not> headersSent (res (wld s))
     \<and> written (res (wld s)) = W \<and> filter is_end (events s) = E"

definition response_sent :: "js_string list \<Rightarrow> event list \<Rightarrow> pstate \<Rightarrow> bool" where
  "response_sent W E s \<longleftrightarrow>
     finished (res (wld s))
     \<and> (\<exists>b. written (res (wld s)) = W @ [b] \<and> filter is_end (events s) = E @ [Ev_end b])"

section \<open>Properties\<close>

subsection \<open>The plugin loop\<close>

lemma for_plugins_filter:
  "for_plugins aw ps name args s = call_in_order aw name args (filter (has_hook name) ps) s"
  by (cases aw; induction ps arbitrary: s)
     (auto simp: has_hook_def log_hook_def split: option.splits prod.splits hook_result.splits)

lemma for_plugins_not_Return: "snd (for_plugins aw ps name args s) \<noteq> Return"
  by (cases aw; induction ps arbitrary: s) (auto split: option.splits prod.splits hook_result.splits)

lemma for_plugins_append:
  "for_plugins aw (xs @ ys) name args s =
     and_then (for_plugins aw xs name args s) (for_plugins aw ys name args)"
  by (cases aw; induction xs arbitrary: s)
     (auto simp: and_then_def split: option.splits prod.splits hook_result.splits)

lemma call_in_order_events:
  "\<exists>k\<le>length ps. events (fst (call_in_order aw name args ps s)) =
       events s @ map (\<lambda>p. Ev_hook name (plugin_id p)) (take k ps)
     \<and> (snd (call_in_order aw name args ps s) = Normal \<longrightarrow> k = length ps)
     \<and> (snd (call_in_order aw name args ps s) \<noteq> Normal \<longrightarrow> 0 < k)"
proof (induction ps arbitrary: s)
  case Nil
  then show ?case by simp
next
  case (Cons p ps)
  obtain wd r where h: "the (methods p name) args (wld s) = (wd, r)"
    by (cases "the (methods p name) args (wld s)")
  from Cons.IH [of "log_hook name p wd s"] obtain k where
    k: "k \<le> length ps"
     "events (fst (call_in_order aw name args ps (log_hook name p wd s))) =
        events (log_hook name p wd s) @ map (\<lambda>p. Ev_hook name (plugin_id p)) (take k ps)"
     "snd (call_in_order aw name args ps (log_hook name p wd s)) = Normal \<longrightarrow> k = length ps"
    by blast
  have go: ?case
    if "call_in_order aw name args (p # ps) s = call_in_order aw name args ps (log_hook name p wd s)"
    by (rule exI [of _ "Suc k"]) (use k that in \<open>simp add: log_hook_def\<close>)
  have stop: ?case if "call_in_order aw name args (p # ps) s = (log_hook name p wd s, Throw e)" for e
    by (rule exI [of _ "Suc 0"]) (use that in \<open>simp add: log_hook_def\<close>)
  show ?case
  proof (cases r)
    case Returned
    with h show ?thesis by (intro go) simp
  next
    case (Threw e)
    with h show ?thesis by (intro stop [of e]) simp
  next
    case (Rejects e)
    show ?thesis
    proof (cases aw)
      case True
      with h Rejects show ?thesis by (intro stop [of e]) simp
    next
      case False
      with h Rejects show ?thesis by (intro go) simp
    qed
  qed
qed

lemma for_plugins_keeps:
  assumes "\<And>n i. \<not> P (Ev_hook n i)"
  shows "filter P (events (fst (for_plugins aw ps name args s))) = filter P (events s)"
  using assms
  by (cases aw; induction ps arbitrary: s) (auto split: option.splits prod.splits hook_result.splits)

text \<open>
  C7, as stated, fails for \<^verbatim>\<open>invoke\<close>: it does not await, so a hook that rejects neither
  ends the invocation nor reaches the caller. With a rejecting hook on the third of four
  plugins, \<^verbatim>\<open>invoke\<close> still calls the hook of the fourth and completes normally, where
  \<^verbatim>\<open>invokeAsync\<close> stops at the third and throws.
\<close>

theorem invoke_drops_a_rejection:
  "events (fst (invoke (server_of plugins_with_rejection None) ''afterResponse'' [ArgContext, ArgServer]
       (initial_state 0 \<lparr>req_url = ''/about''\<rparr> fresh_res))) =
     [Ev_hook ''afterResponse'' 1, Ev_hook ''afterResponse'' 3, Ev_hook ''afterResponse'' 4]
   \<and> snd (invoke (server_of plugins_with_rejection None) ''afterResponse'' [ArgContext, ArgServer]
       (initial_state 0 \<lparr>req_url = ''/about''\<rparr> fresh_res)) = Normal
   \<and> events (fst (invokeAsync (server_of plugins_with_rejection None) ''afterResponse'' [ArgContext, ArgServer]
       (initial_state 0 \<lparr>req_url = ''/about''\<rparr> fresh_res))) =
     [Ev_hook ''afterResponse'' 1, Ev_hook ''afterResponse'' 3]
   \<and> snd (invokeAsync (server_of plugins_with_rejection None) ''afterResponse'' [ArgContext, ArgServer]
       (initial_state 0 \<lparr>req_url = ''/about''\<rparr> fresh_res)) = Throw (Error ''later'')"
  by (simp add: invoke_def invokeAsync_def server_of_def plugins_with_rejection_def note_hook_def
      rejecting_hook_def initial_state_def fresh_res_def)

text \<open>
  C7, amended. \<^verbatim>\<open>addPlugin\<close> appends to the stack, and both \<^verbatim>\<open>invoke\<close> and
  \<^verbatim>\<open>invokeAsync\<close> call the hook of exactly the plugins that have it, in the order of
  registration, each on the state the previous hook left: the calls logged are those of
  the first \<open>k\<close> such plugins, all of them when the invocation completes normally. A hook
  that throws ends the invocation there, with its error as the outcome, in both. A hook that
  rejects does so in \<^verbatim>\<open>invokeAsync\<close>, which awaits each call; in \<^verbatim>\<open>invoke\<close> the rejected
  promise is dropped and the invocation goes on with the remaining plugins.
\<close>

theorem hooks_called_in_registration_order:
  "plugins (addPlugin p srv) = plugins srv @ [p]
   \<and> invoke srv name args s =
       call_in_order False name args (filter (has_hook name) (plugins srv)) s
   \<and> invokeAsync srv name args s =
       call_in_order True name args (filter (has_hook name) (plugins srv)) s
   \<and> (\<exists>k\<le>length (filter (has_hook name) (plugins srv)).
         events (fst (invokeAsync srv name args s)) =
           events s @ map (\<lambda>p. Ev_hook name (plugin_id p)) (take k (filter (has_hook name) (plugins srv)))
         \<and> (snd (invokeAsync srv name args s) = Normal \<longrightarrow> k = length (filter (has_hook name) (plugins srv)))
         \<and> (snd (invokeAsync srv name args s) \<noteq> Normal \<longrightarrow> 0 < k))
   \<and> (\<exists>k\<le>length (filter (has_hook name) (plugins srv)).
         events (fst (invoke srv name args s)) =
           events s @ map (\<lambda>p. Ev_hook name (plugin_id p)) (take k (filter (has_hook name) (plugins srv)))
         \<and> (snd (invoke srv name args s) = Normal \<longrightarrow> k = length (filter (has_hook name) (plugins srv)))
         \<and> (snd (invoke srv name args s) \<noteq> Normal \<longrightarrow> 0 < k))
   \<and> (\<forall>pre q post h s1 wd e.
         plugins srv = pre @ q # post \<and> for_plugins True pre name args s = (s1, Normal)
         \<and> methods q name = Some h
         \<and> (h args (wld s1) = (wd, Threw e) \<or> h args (wld s1) = (wd, Rejects e))
         \<longrightarrow> invokeAsync srv name args s = (log_hook name q wd s1, Throw e))
   \<and> (\<forall>pre q post h s1 wd e.
         plugins srv = pre @ q # post \<and> for_plugins False pre name args s = (s1, Normal)
         \<and> methods q name = Some h \<and> h args (wld s1) = (wd, Threw e)
         \<longrightarrow> invoke srv name args s = (log_hook name q wd s1, Throw e))
   \<and> (\<forall>pre q post h s1 wd e.
         plugins srv = pre @ q # post \<and> for_plugins False pre name args s = (s1, Normal)
         \<and> methods q name = Some h \<and> h args (wld s1) = (wd, Rejects e)
         \<longrightarrow> invoke srv name args s = for_plugins False post name args (log_hook name q wd s1))"
proof -
  let ?H = "filter (has_hook name) (plugins srv)"
  have a: "plugins (addPlugin p srv) = plugins srv @ [p]"
    by (simp add: addPlugin_def)
  have b: "invoke srv name args s = call_in_order False name args ?H s"
    by (simp add: invoke_def for_plugins_filter)
  have c: "invokeAsync srv name args s = call_in_order True name args ?H s"
    by (simp add: invokeAsync_def for_plugins_filter)
  have d: "\<exists>k\<le>length ?H.
         events (fst (invokeAsync srv name args s)) =
           events s @ map (\<lambda>p. Ev_hook name (plugin_id p)) (take k ?H)
         \<and> (snd (invokeAsync srv name args s) = Normal \<longrightarrow> k = length ?H)
         \<and> (snd (invokeAsync srv name args s) \<noteq> Normal \<longrightarrow> 0 < k)"
    unfolding c by (rule call_in_order_events)
  have d': "\<exists>k\<le>length ?H.
         events (fst (invoke srv name args s)) =
           events s @ map (\<lambda>p. Ev_hook name (plugin_id p)) (take k ?H)
         \<and> (snd (invoke srv name args s) = Normal \<longrightarrow> k = length ?H)
         \<and> (snd (invoke srv name args s) \<noteq> Normal \<longrightarrow> 0 < k)"
    unfolding b by (rule call_in_order_events)
  have e: "for_plugins True (pre @ q # post) name args s = (log_hook name q wd s1, Throw e)"
    if "for_plugins True pre name args s = (s1, Normal)" "methods q name = Some h"
       "h args (wld s1) = (wd, Threw e) \<or> h args (wld s1) = (wd, Rejects e)"
    for pre q post h s1 wd e
    using that by (auto simp: for_plugins_append and_then_def log_hook_def)
  have f: "for_plugins False (pre @ q # post) name args s = (log_hook name q wd s1, Throw e)"
    if "for_plugins False pre name args s = (s1, Normal)" "methods q name = Some h"
       "h args (wld s1) = (wd, Threw e)" for pre q post h s1 wd e
    using that by (simp add: for_plugins_append and_then_def log_hook_def)
  have g: "for_plugins False (pre @ q # post) name args s
             = for_plugins False post name args (log_hook name q wd s1)"
    if "for_plugins False pre name args s = (s1, Normal)" "methods q name = Some h"
       "h args (wld s1) = (wd, Rejects e)" for pre q post h s1 wd e
    using that by (simp add: for_plugins_append and_then_def log_hook_def)
  have e': "\<forall>pre q post h s1 wd e.
         plugins srv = pre @ q # post \<and> for_plugins True pre name args s = (s1, Normal)
         \<and> methods q name = Some h
         \<and> (h args (wld s1) = (wd, Threw e) \<or> h args (wld s1) = (wd, Rejects e))
         \<longrightarrow> invokeAsync srv name args s = (log_hook name q wd s1, Throw e)"
    using e by (auto simp: invokeAsync_def)
  have f': "\<forall>pre q post h s1 wd e.
         plugins srv = pre @ q # post \<and> for_plugins False pre name args s = (s1, Normal)
         \<and> methods q name = Some h \<and> h args (wld s1) = (wd, Threw e)
         \<longrightarrow> invoke srv name args s = (log_hook name q wd s1, Throw e)"
    using f by (simp add: invoke_def)
  have g': "\<forall>pre q post h s1 wd e.
         plugins srv = pre @ q # post \<and> for_plugins False pre name args s = (s1, Normal)
         \<and> methods q name = Some h \<and> h args (wld s1) = (wd, Rejects e)
         \<longrightarrow> invoke srv name args s = for_plugins False post name args (log_hook name q wd s1)"
    using g by (simp add: invoke_def)
  from a b c d d' e' f' g' show ?thesis
    by (intro conjI)
qed

theorem hooks_called_in_registration_order_witness:
  "events (fst (invokeAsync (server_of four_plugins None) ''beforeRender'' [ArgContext, ArgServer]
       (initial_state 0 \<lparr>req_url = ''/about''\<rparr> fresh_res))) =
     [Ev_hook ''beforeRender'' 1, Ev_hook ''beforeRender'' 3]
   \<and> snd (invokeAsync (server_of four_plugins None) ''beforeRender'' [ArgContext, ArgServer]
       (initial_state 0 \<lparr>req_url = ''/about''\<rparr> fresh_res)) = Throw (Error ''boom'')
   \<and> data (context (wld (fst (invokeAsync (server_of four_plugins None) ''beforeRender'' [ArgContext, ArgServer]
       (initial_state 0 \<lparr>req_url = ''/about''\<rparr> fresh_res))))) = [(''seen'', ''yes'')]
   \<and> invoke (server_of four_plugins None) ''beforeRender'' [ArgContext, ArgServer]
       (initial_state 0 \<lparr>req_url = ''/about''\<rparr> fresh_res)
     = invokeAsync (server_of four_plugins None) ''beforeRender'' [ArgContext, ArgServer]
       (initial_state 0 \<lparr>req_url = ''/about''\<rparr> fresh_res)"
  using hooks_called_in_registration_order [of "\<lparr>plugin_id = 5, methods = Map.empty\<rparr>"
      "server_of four_plugins None" "''beforeRender''"
      "[ArgContext, ArgServer]" "initial_state 0 \<lparr>req_url = ''/about''\<rparr> fresh_res"]
  by (simp add: server_of_def four_plugins_def has_hook_def log_hook_def note_hook_def
      throwing_hook_def initial_state_def fresh_res_def)

subsection \<open>The send step\<close>

lemma sendResponse_headers_sent:
  "headersSent (res (wld s)) \<Longrightarrow> sendResponse s = (s, Throw ERR_HTTP_HEADERS_SENT)"
  by (simp add: sendResponse_def setHeader_def Let_def)

lemma sendResponse_sends:
  assumes "\<not> headersSent (res (wld s))" and "\<not> finished (res (wld s))"
    and "valid_status (status_or (ctx_statusCode (context (wld s))) (status (response (wld s))))"
  shows "snd (sendResponse s) = Normal"
    and "events (fst (sendResponse s)) = events s @ [Ev_end (body (response (wld s)))]"
    and "response (wld (fst (sendResponse s))) = response (wld s)"
    and "context (wld (fst (sendResponse s))) = context (wld s)"
    and "finished (res (wld (fst (sendResponse s))))"
    and "written (res (wld (fst (sendResponse s)))) = written (res (wld s)) @ [body (response (wld s))]"
    and "statusCode (res (wld (fst (sendResponse s)))) =
           status_or (ctx_statusCode (context (wld s))) (status (response (wld s)))"
    and "headers (res (wld (fst (sendResponse s)))) ''Content-Type'' = Some (HStr ''text/html; charset=utf-8'')"
    and "headers (res (wld (fst (sendResponse s)))) ''Content-Length'' = Some (HNum (length (body (response (wld s)))))"
  using assms by (simp_all add: sendResponse_def setHeader_def Let_def res_end_def)

text \<open>With a status code that is not valid the send step throws and the response stays open.\<close>

lemma sendResponse_invalid_status:
  assumes "\<not> headersSent (res (wld s))" and "\<not> finished (res (wld s))"
    and "\<not> valid_status (status_or (ctx_statusCode (context (wld s))) (status (response (wld s))))"
  shows "snd (sendResponse s) = Throw ERR_HTTP_INVALID_STATUS_CODE"
    and "events (fst (sendResponse s)) =
           events s @ [Ev_end_threw (body (response (wld s))) ERR_HTTP_INVALID_STATUS_CODE]"
    and "response (wld (fst (sendResponse s))) = response (wld s)"
    and "context (wld (fst (sendResponse s))) = context (wld s)"
    and "\<not> finished (res (wld (fst (sendResponse s))))"
    and "\<not> headersSent (res (wld (fst (sendResponse s))))"
    and "written (res (wld (fst (sendResponse s)))) = written (res (wld s))"
  using assms by (simp_all add: sendResponse_def setHeader_def Let_def res_end_def)

lemma sendResponse_not_Return: "snd (sendResponse s) \<noteq> Return"
  by (simp add: sendResponse_def setHeader_def Let_def res_end_def split: sum.splits)

lemma sendResponse_ends:
  "filter is_end (events (fst (sendResponse s))) = filter is_end (events s)
   \<or> (snd (sendResponse s) = Normal
      \<and> filter is_end (events (fst (sendResponse s))) = filter is_end (events s) @ [Ev_end (body (response (wld s)))])"
  by (simp add: sendResponse_def setHeader_def Let_def res_end_def)

text \<open>
  What a send that completes does to the transport response, and what one that throws
  leaves of it.
\<close>

lemma sendResponse_finalizes:
  "(snd (sendResponse s) = Normal \<longrightarrow>
      finished (res (wld (fst (sendResponse s))))
      \<and> events (fst (sendResponse s)) = events s @ [Ev_end (body (response (wld s)))]
      \<and> (\<not> finished (res (wld s)) \<longrightarrow>
           written (res (wld (fst (sendResponse s)))) =
             written (res (wld s)) @ [body (response (wld s))]))
   \<and> (snd (sendResponse s) \<noteq> Normal \<longrightarrow>
      finished (res (wld (fst (sendResponse s)))) = finished (res (wld s))
      \<and> headersSent (res (wld (fst (sendResponse s)))) = headersSent (res (wld s))
      \<and> written (res (wld (fst (sendResponse s)))) = written (res (wld s))
      \<and> filter is_end (events (fst (sendResponse s))) = filter is_end (events s))"
  by (simp add: sendResponse_def setHeader_def Let_def res_end_def)

text \<open>
  C6. The send step sets \<^verbatim>\<open>Content-Length\<close> to \<^verbatim>\<open>response.body.length\<close>, the number
  of UTF-16 code units. For the body \<^verbatim>\<open>"\u00e9"\<close> the header says 1 while the body
  written takes 2 bytes in UTF-8.
\<close>

theorem content_length_counts_code_units:
  "headers (res (wld (fst (sendResponse (with_body [0xE9] (initial_state 0 \<lparr>req_url = ''/''\<rparr> fresh_res))))))
     ''Content-Length'' = Some (HNum 1)
   \<and> written (res (wld (fst (sendResponse (with_body [0xE9] (initial_state 0 \<lparr>req_url = ''/''\<rparr> fresh_res)))))) = [[0xE9]]
   \<and> utf8_byteLength [0xE9] = 2"
  by (simp add: sendResponse_def setHeader_def Let_def res_end_def valid_status_def status_or_def
      with_body_def initial_state_def fresh_res_def unit_bytes_def)

text \<open>On a body of ASCII characters the two lengths agree.\<close>

lemma ascii_byteLength:
  "\<forall>u\<in>set b. u < 0x80 \<Longrightarrow> utf8_byteLength b = length b"
proof (induction b rule: utf8_byteLength.induct)
  case (3 u v us)
  have "\<not> high_surrogate u"
    using 3(3) by (auto simp: high_surrogate_def word_less_nat_alt word_le_nat_alt)
  with 3 show ?case by (simp add: unit_bytes_def)
qed (simp_all add: unit_bytes_def)

subsection \<open>Terminal writes along the pipeline\<close>

lemma fst_and_then: "fst (and_then m f) = (if snd m = Normal then fst (f (fst m)) else fst m)"
  by (cases m) (auto simp: and_then_def split: completion.splits)

lemma snd_and_then: "snd (and_then m f) = (if snd m = Normal then snd (f (fst m)) else snd m)"
  by (cases m) (auto simp: and_then_def split: completion.splits)

lemma invokeAsync_not_Return: "snd (invokeAsync srv name args s) \<noteq> Return"
  by (simp add: invokeAsync_def for_plugins_not_Return)

lemma invoke_not_Return: "snd (invoke srv name args s) \<noteq> Return"
  by (simp add: invoke_def for_plugins_not_Return)

lemma invokeAsync_ends:
  "filter is_end (events (fst (invokeAsync srv name args s))) = filter is_end (events s)"
  by (simp add: invokeAsync_def for_plugins_keeps)

lemma invoke_ends:
  "filter is_end (events (fst (invoke srv name args s))) = filter is_end (events s)"
  by (simp add: invoke_def for_plugins_keeps)

lemma spa_branch_ends:
  "filter is_end (events (fst (spa_branch srv s))) = filter is_end (events s)"
  by (auto simp: spa_branch_def Let_def split: prod.splits sum.splits)

lemma ssr_render_ends:
  "filter is_end (events (fst (ssr_render srv s))) = filter is_end (events s)"
  by (auto simp: ssr_render_def Let_def split: prod.splits sum.splits)

lemma ssr_build_ends:
  "filter is_end (events (fst (ssr_build srv s))) = filter is_end (events s)"
  by (auto simp: ssr_build_def Let_def split: prod.splits sum.splits)

lemmas step_ends = invokeAsync_ends invoke_ends spa_branch_ends ssr_render_ends ssr_build_ends

lemma ssr_branch_ends:
  "filter is_end (events (fst (ssr_branch srv s))) = filter is_end (events s)"
  by (simp add: ssr_branch_def fst_and_then step_ends)

lemma try_block_ends:
  "filter is_end (events (fst (try_block srv s))) = filter is_end (events s)
   \<or> (snd (try_block srv s) = Normal
      \<and> (\<exists>b. filter is_end (events (fst (try_block srv s))) = filter is_end (events s) @ [Ev_end b]))"
proof -
  let ?s1 = "fst (invokeAsync srv ''beforeRender'' [ArgContext, ArgServer] s)"
  let ?s2 = "fst (if is_spa srv (wld ?s1) then spa_branch srv ?s1 else ssr_branch srv ?s1)"
  let ?s3 = "fst (invokeAsync srv ''rendered'' [ArgResponse, ArgContext, ArgServer] ?s2)"
  have 1: "filter is_end (events ?s1) = filter is_end (events s)"
    by (rule invokeAsync_ends)
  have 2: "filter is_end (events ?s2) = filter is_end (events s)"
    using 1 by (simp add: spa_branch_ends ssr_branch_ends)
  have 3: "filter is_end (events ?s3) = filter is_end (events s)"
    using 2 by (simp add: invokeAsync_ends)
  from sendResponse_ends [of ?s3] 1 2 3 show ?thesis
    by (auto simp: try_block_def fst_and_then snd_and_then)
qed

lemma catch_block_ends:
  "filter is_end (events (fst (catch_block srv err s))) = filter is_end (events s)
   \<or> (\<exists>b. filter is_end (events (fst (catch_block srv err s))) = filter is_end (events s) @ [Ev_end b])"
proof -
  let ?s1 = "fst (invokeAsync srv ''routeError'' [ArgErr err, ArgResponse, ArgContext, ArgServer]
                (log_error srv err s))"
  have 1: "filter is_end (events ?s1) = filter is_end (events s)"
    by (simp add: invokeAsync_ends log_error_def)
  from sendResponse_ends [of "default_error_response ?s1"] 1 show ?thesis
    by (auto simp: catch_block_def fst_and_then default_error_response_def)
qed

lemma try_catch_ends:
  "filter is_end (events (fst (try_catch srv s))) = filter is_end (events s)
   \<or> (\<exists>b. filter is_end (events (fst (try_catch srv s))) = filter is_end (events s) @ [Ev_end b])"
proof (cases "try_block srv s")
  case (Pair s1 c1)
  show ?thesis
  proof (cases c1)
    case (Throw e)
    with Pair have "try_catch srv s = catch_block srv e s1" by (simp add: try_catch_def)
    with catch_block_ends [of srv e s1] try_block_ends [of srv s] Pair Throw show ?thesis by auto
  qed (use Pair try_block_ends [of srv s] in \<open>auto simp: try_catch_def\<close>)
qed

lemma after_response_ends:
  "filter is_end (events (fst (after_response srv m))) = filter is_end (events (fst m))"
proof (cases m)
  case (Pair s c)
  from invoke_ends [of srv "''afterResponse''" "[ArgContext, ArgServer]" s] Pair show ?thesis
    by (cases c; cases "invoke srv ''afterResponse'' [ArgContext, ArgServer] s")
       (auto simp: after_response_def split: completion.splits)
qed

lemma renderMiddleware_at_most_one_end:
  "length (filter is_end (events (fst (renderMiddleware srv rref req res0)))) \<le> 1"
proof -
  have "events (initial_state rref req res0) = []" by (simp add: initial_state_def)
  with try_catch_ends [of srv "initial_state rref req res0"] show ?thesis
    by (auto simp: renderMiddleware_def after_response_ends)
qed

subsection \<open>What hooks and renderer leave alone, the pipeline leaves alone\<close>

lemma for_plugins_keeps_world:
  assumes "\<forall>p\<in>set ps. \<forall>name h args wd. methods p name = Some h \<longrightarrow> f (fst (h args wd)) = f wd"
  shows "f (wld (fst (for_plugins aw ps name args s))) = f (wld s)"
  using assms
proof (induction ps arbitrary: s)
  case Nil
  then show ?case by simp
next
  case (Cons p ps)
  show ?case
  proof (cases "methods p name")
    case None
    with Cons show ?thesis by simp
  next
    case (Some h)
    obtain wd r where h: "h args (wld s) = (wd, r)" by (cases "h args (wld s)")
    from Cons.prems Some have k: "f (fst (h args (wld s))) = f (wld s)" by simp
    from Cons.prems have
      "\<forall>p\<in>set ps. \<forall>name h args wd. methods p name = Some h \<longrightarrow> f (fst (h args wd)) = f wd"
      by simp
    note ih = Cons.IH [OF this]
    show ?thesis
      using Some h k ih [of "s\<lparr>wld := wd, events := events s @ [Ev_hook name (plugin_id p)]\<rparr>"]
      by (cases r; cases aw) simp_all
  qed
qed

lemma invokeAsync_keeps_world:
  "hooks_keep srv f \<Longrightarrow> f (wld (fst (invokeAsync srv name args s))) = f (wld s)"
  unfolding invokeAsync_def hooks_keep_def by (rule for_plugins_keeps_world)

lemma invoke_keeps_world:
  "hooks_keep srv f \<Longrightarrow> f (wld (fst (invoke srv name args s))) = f (wld s)"
  unfolding invoke_def hooks_keep_def by (rule for_plugins_keeps_world)

lemma spa_branch_keeps_world:
  assumes "renderers_keep srv f" and "\<And>wd x. f (wd\<lparr>response := x\<rparr>) = f wd"
  shows "f (wld (fst (spa_branch srv s))) = f (wld s)"
proof -
  have "f (fst (renderSPAPage (renderers srv (this_renderer (wld s))) (wld s))) = f (wld s)"
    using assms(1) by (simp add: renderers_keep_def)
  then show ?thesis
    by (cases "renderSPAPage (renderers srv (this_renderer (wld s))) (wld s)")
       (auto simp: spa_branch_def Let_def assms(2) split: sum.splits)
qed

lemma ssr_render_keeps_world:
  assumes "renderers_keep srv f" and "\<And>wd x. f (wd\<lparr>response := x\<rparr>) = f wd"
  shows "f (wld (fst (ssr_render srv s))) = f (wld s)"
proof -
  have "f (fst (render (renderers srv (this_renderer (wld s))) (wld s))) = f (wld s)"
    using assms(1) by (simp add: renderers_keep_def)
  then show ?thesis
    by (cases "render (renderers srv (this_renderer (wld s))) (wld s)")
       (auto simp: ssr_render_def Let_def assms(2) split: sum.splits)
qed

lemma ssr_build_keeps_world:
  assumes "renderers_keep srv f" and "\<And>wd x. f (wd\<lparr>response := x\<rparr>) = f wd"
  shows "f (wld (fst (ssr_build srv s))) = f (wld s)"
proof -
  have "f (fst (renderSSRPage (renderers srv (this_renderer (wld s))) (body (response (wld s))) (wld s))) = f (wld s)"
    using assms(1) by (simp add: renderers_keep_def)
  then show ?thesis
    by (cases "renderSSRPage (renderers srv (this_renderer (wld s))) (body (response (wld s))) (wld s)")
       (auto simp: ssr_build_def Let_def assms(2) split: sum.splits)
qed

lemma ssr_branch_keeps_world:
  assumes "hooks_keep srv f" and "renderers_keep srv f" and "\<And>wd x. f (wd\<lparr>response := x\<rparr>) = f wd"
  shows "f (wld (fst (ssr_branch srv s))) = f (wld s)"
proof -
  note r = ssr_render_keeps_world [where f = f, OF assms(2,3)]
  note b = ssr_build_keeps_world [where f = f, OF assms(2,3)]
  note h = invokeAsync_keeps_world [where f = f, OF assms(1)]
  show ?thesis
    by (simp add: ssr_branch_def fst_and_then r b h)
qed

subsection \<open>Requests whose hooks and renderer leave the transport response alone\<close>

lemma hooks_leave_res_for_plugins:
  "hooks_leave_res aw ps name args s \<Longrightarrow>
     res (wld (fst (for_plugins aw ps name args s))) = res (wld s)"
proof (induction ps arbitrary: s)
  case Nil
  then show ?case by simp
next
  case (Cons p ps)
  show ?case
  proof (cases "methods p name")
    case None
    with Cons show ?thesis by simp
  next
    case (Some h)
    obtain wd r where h: "h args (wld s) = (wd, r)" by (cases "h args (wld s)")
    let ?s = "s\<lparr>wld := wd, events := events s @ [Ev_hook name (plugin_id p)]\<rparr>"
    from Cons.prems Some h have k: "res wd = res (wld s)"
      by (cases r) simp_all
    have go: "res (wld (fst (for_plugins aw ps name args ?s))) = res (wld s)"
      if "hooks_leave_res aw ps name args ?s"
      using Cons.IH [OF that] k by simp
    show ?thesis
      using Cons.prems Some h k go by (cases r; cases aw) simp_all
  qed
qed

lemma hooks_leave_res_invokeAsync:
  "hooks_leave_res True (plugins srv) name args s \<Longrightarrow>
     res (wld (fst (invokeAsync srv name args s))) = res (wld s)"
  unfolding invokeAsync_def by (rule hooks_leave_res_for_plugins)

lemma hooks_leave_res_invoke:
  "hooks_leave_res False (plugins srv) name args s \<Longrightarrow>
     res (wld (fst (invoke srv name args s))) = res (wld s)"
  unfolding invoke_def by (rule hooks_leave_res_for_plugins)

lemma spa_leaves_res_branch:
  "spa_leaves_res srv s \<Longrightarrow> res (wld (fst (spa_branch srv s))) = res (wld s)"
  by (cases "renderSPAPage (renderers srv (this_renderer (wld s))) (wld s)")
     (auto simp: spa_leaves_res_def spa_branch_def Let_def split: sum.splits)

lemma ssr_leaves_res_branch:
  assumes "ssr_leaves_res srv s"
  shows "res (wld (fst (ssr_branch srv s))) = res (wld s)"
proof -
  define m2 where "m2 = ssr_render srv s"
  define m3 where "m3 = invokeAsync srv ''beforeBuild'' [ArgResponse, ArgContext, ArgServer] (fst m2)"
  from assms have a: "res (fst (render (renderers srv (this_renderer (wld s))) (wld s))) = res (wld s)"
    and b: "snd m2 = Normal \<Longrightarrow>
         hooks_leave_res True (plugins srv) ''beforeBuild'' [ArgResponse, ArgContext, ArgServer] (fst m2)"
    and c: "snd m2 = Normal \<Longrightarrow> snd m3 = Normal \<Longrightarrow>
         res (fst (renderSSRPage (renderers srv (this_renderer (wld (fst m3))))
                     (body (response (wld (fst m3)))) (wld (fst m3)))) = res (wld (fst m3))"
    by (simp_all add: ssr_leaves_res_def Let_def m2_def m3_def)
  have r2: "res (wld (fst m2)) = res (wld s)"
    using a unfolding m2_def
    by (cases "render (renderers srv (this_renderer (wld s))) (wld s)")
       (auto simp: ssr_render_def Let_def split: sum.splits)
  have r3: "res (wld (fst m3)) = res (wld s)" if "snd m2 = Normal"
    using hooks_leave_res_invokeAsync [OF b [OF that]] r2 by (simp add: m3_def)
  have r4: "res (wld (fst (ssr_build srv (fst m3)))) = res (wld s)"
    if "snd m2 = Normal" "snd m3 = Normal"
    using c [OF that] r3 [OF that(1)]
    by (cases "renderSSRPage (renderers srv (this_renderer (wld (fst m3))))
                     (body (response (wld (fst m3)))) (wld (fst m3))")
       (auto simp: ssr_build_def Let_def split: sum.splits)
  show ?thesis
    using r2 r3 r4
    by (simp add: ssr_branch_def fst_and_then m2_def [symmetric] m3_def [symmetric])
qed

lemma response_open_step:
  "response_open W E s \<Longrightarrow> res (wld s') = res (wld s)
     \<Longrightarrow> filter is_end (events s') = filter is_end (events s) \<Longrightarrow> response_open W E s'"
  by (simp add: response_open_def)

lemma response_sent_step:
  "response_sent W E s \<Longrightarrow> res (wld s') = res (wld s)
     \<Longrightarrow> filter is_end (events s') = filter is_end (events s) \<Longrightarrow> response_sent W E s'"
  by (simp add: response_sent_def)

text \<open>A send on an open response finishes it if it completes and leaves it open if it throws.\<close>

lemma sendResponse_open:
  assumes "response_open W E s"
  shows "(snd (sendResponse s) = Normal \<longrightarrow> response_sent W E (fst (sendResponse s)))
       \<and> (snd (sendResponse s) \<noteq> Normal \<longrightarrow> response_open W E (fst (sendResponse s)))"
  using assms sendResponse_finalizes [of s]
  by (auto simp: response_open_def response_sent_def)

lemma try_block_open:
  assumes tl: "try_leaves_res srv s" and op: "response_open W E s"
  shows "(snd (try_block srv s) = Normal \<longrightarrow> response_sent W E (fst (try_block srv s)))
       \<and> (snd (try_block srv s) \<noteq> Normal \<longrightarrow> response_open W E (fst (try_block srv s)))"
proof -
  define m1 where "m1 = invokeAsync srv ''beforeRender'' [ArgContext, ArgServer] s"
  define m2 where "m2 = (if is_spa srv (wld (fst m1)) then spa_branch srv (fst m1)
                         else ssr_branch srv (fst m1))"
  define m3 where "m3 = invokeAsync srv ''rendered'' [ArgResponse, ArgContext, ArgServer] (fst m2)"
  define m4 where "m4 = sendResponse (fst m3)"
  from tl have l1: "hooks_leave_res True (plugins srv) ''beforeRender'' [ArgContext, ArgServer] s"
    by (simp add: try_leaves_res_def)
  have r1: "res (wld (fst m1)) = res (wld s)"
    unfolding m1_def by (rule hooks_leave_res_invokeAsync [OF l1])
  have e1: "filter is_end (events (fst m1)) = filter is_end (events s)"
    by (simp add: m1_def invokeAsync_ends)
  have o1: "response_open W E (fst m1)"
    by (rule response_open_step [OF op r1 e1])
  then have nf: "\<not> finished (res (wld (fst m1)))"
    by (simp add: response_open_def)
  from tl nf have l2: "snd m1 = Normal \<Longrightarrow>
      (if is_spa srv (wld (fst m1)) then spa_leaves_res srv (fst m1) else ssr_leaves_res srv (fst m1))"
    and l3: "snd m1 = Normal \<Longrightarrow> snd m2 = Normal \<Longrightarrow>
      hooks_leave_res True (plugins srv) ''rendered'' [ArgResponse, ArgContext, ArgServer] (fst m2)"
    by (simp_all add: try_leaves_res_def Let_def m1_def [symmetric] m2_def [symmetric])
  have e2: "filter is_end (events (fst m2)) = filter is_end (events (fst m1))"
    by (simp add: m2_def spa_branch_ends ssr_branch_ends)
  have e3: "filter is_end (events (fst m3)) = filter is_end (events (fst m2))"
    by (simp add: m3_def invokeAsync_ends)
  have o2: "response_open W E (fst m2)" if "snd m1 = Normal"
  proof -
    have "res (wld (fst m2)) = res (wld (fst m1))"
      using l2 [OF that] by (simp add: m2_def spa_leaves_res_branch ssr_leaves_res_branch)
    from response_open_step [OF o1 this e2] show ?thesis .
  qed
  have o3: "response_open W E (fst m3)" if "snd m1 = Normal" "snd m2 = Normal"
  proof -
    have "res (wld (fst m3)) = res (wld (fst m2))"
      unfolding m3_def by (rule hooks_leave_res_invokeAsync [OF l3 [OF that]])
    from response_open_step [OF o2 [OF that(1)] this e3] show ?thesis .
  qed
  have tb: "try_block srv s =
      (if snd m1 \<noteq> Normal then m1
       else if snd m2 \<noteq> Normal then m2
       else if snd m3 \<noteq> Normal then m3
       else m4)"
    using nf
    by (simp add: try_block_def prod_eq_iff fst_and_then snd_and_then m1_def [symmetric]
        m2_def [symmetric] m3_def [symmetric] m4_def [symmetric])
  have o4: "(snd m4 = Normal \<longrightarrow> response_sent W E (fst m4))
       \<and> (snd m4 \<noteq> Normal \<longrightarrow> response_open W E (fst m4))"
    if "snd m1 = Normal" "snd m2 = Normal"
    unfolding m4_def by (rule sendResponse_open [OF o3 [OF that]])
  show ?thesis
    unfolding tb using o1 o2 o3 o4 by simp
qed

lemma try_catch_open:
  assumes tl: "try_leaves_res srv s"
    and cl: "\<And>s1 e. try_block srv s = (s1, Throw e) \<Longrightarrow>
               hooks_leave_res True (plugins srv) ''routeError''
                 [ArgErr e, ArgResponse, ArgContext, ArgServer] (log_error srv e s1)"
    and op: "response_open W E s"
  shows "(snd (try_catch srv s) = Normal \<longrightarrow> response_sent W E (fst (try_catch srv s)))
       \<and> (snd (try_catch srv s) \<noteq> Normal \<longrightarrow> response_open W E (fst (try_catch srv s)))"
proof (cases "try_block srv s")
  case (Pair s1 c1)
  note tb = try_block_open [OF tl op]
  show ?thesis
  proof (cases c1)
    case Normal
    with Pair tb show ?thesis by (simp add: try_catch_def)
  next
    case Return
    with Pair tb show ?thesis by (simp add: try_catch_def)
  next
    case (Throw e)
    define m where "m = invokeAsync srv ''routeError'' [ArgErr e, ArgResponse, ArgContext, ArgServer]
                          (log_error srv e s1)"
    from Pair Throw have tc: "try_catch srv s = catch_block srv e s1"
      by (simp add: try_catch_def)
    from Pair Throw tb have o1: "response_open W E s1" by simp
    have "res (wld (fst m)) = res (wld s1)"
      using hooks_leave_res_invokeAsync [OF cl] Pair Throw by (simp add: m_def log_error_def)
    moreover have "filter is_end (events (fst m)) = filter is_end (events s1)"
      by (simp add: m_def invokeAsync_ends log_error_def)
    ultimately have o2: "response_open W E (fst m)"
      by (rule response_open_step [OF o1])
    then have o3: "response_open W E (default_error_response (fst m))"
      by (simp add: response_open_def default_error_response_def)
    have cb: "catch_block srv e s1 =
        (if snd m \<noteq> Normal then m else sendResponse (default_error_response (fst m)))"
      using o2
      by (simp add: catch_block_def prod_eq_iff fst_and_then snd_and_then m_def [symmetric]
          response_open_def)
    show ?thesis
      unfolding tc cb using o2 sendResponse_open [OF o3] by simp
  qed
qed

lemma renderMiddleware_open:
  assumes rl: "request_leaves_res srv (initial_state rref req res0)"
    and nf: "\<not> finished res0" and nh: "\<not> headersSent res0"
  shows "((\<exists>c r. snd (renderMiddleware srv rref req res0) = Resolved c r) \<longrightarrow>
            response_sent (written res0) [] (fst (renderMiddleware srv rref req res0)))
       \<and> (response_open (written res0) [] (fst (renderMiddleware srv rref req res0))
          \<or> response_sent (written res0) [] (fst (renderMiddleware srv rref req res0)))"
proof -
  define s0 where "s0 = initial_state rref req res0"
  obtain s2 c2 where tc: "try_catch srv s0 = (s2, c2)"
    by (cases "try_catch srv s0")
  have op: "response_open (written res0) [] s0"
    using nf nh by (simp add: response_open_def initial_state_def s0_def)
  from rl have tl: "try_leaves_res srv s0"
    by (simp add: request_leaves_res_def s0_def)
  have cl: "hooks_leave_res True (plugins srv) ''routeError''
                 [ArgErr e, ArgResponse, ArgContext, ArgServer] (log_error srv e s1)"
    if "try_block srv s0 = (s1, Throw e)" for s1 e
    using rl that unfolding request_leaves_res_def s0_def [symmetric] by simp
  have al: "hooks_leave_res False (plugins srv) ''afterResponse'' [ArgContext, ArgServer] s2"
    if "c2 = Normal"
    using rl tc that unfolding request_leaves_res_def s0_def [symmetric] by simp
  from try_catch_open [OF tl cl op] tc
  have t: "c2 = Normal \<longrightarrow> response_sent (written res0) [] s2"
    "c2 \<noteq> Normal \<longrightarrow> response_open (written res0) [] s2"
    by simp_all
  have rm: "renderMiddleware srv rref req res0 = after_response srv (s2, c2)"
    by (simp add: renderMiddleware_def s0_def [symmetric] tc)
  show ?thesis
  proof (cases c2)
    case Normal
    define m where "m = invoke srv ''afterResponse'' [ArgContext, ArgServer] s2"
    have r: "res (wld (fst m)) = res (wld s2)"
      unfolding m_def by (rule hooks_leave_res_invoke [OF al [OF Normal]])
    have e: "filter is_end (events (fst m)) = filter is_end (events s2)"
      by (simp add: m_def invoke_ends)
    from t Normal have "response_sent (written res0) [] s2" by simp
    from response_sent_step [OF this r e]
    have "response_sent (written res0) [] (fst m)" .
    moreover have "fst (after_response srv (s2, Normal)) = fst m"
      by (simp add: after_response_def m_def split: prod.splits completion.splits)
    ultimately show ?thesis
      unfolding rm Normal by simp
  next
    case Return
    have "after_response srv (s2, Return) = (s2, Resolved_undefined)"
      by (simp add: after_response_def)
    with t Return show ?thesis unfolding rm by simp
  next
    case (Throw e)
    have "after_response srv (s2, Throw e) = (s2, Rejected e)"
      by (simp add: after_response_def)
    with t Throw show ?thesis unfolding rm by simp
  qed
qed

subsection \<open>One terminal write at most\<close>

lemmas example_defs = server_of_def null_renderer_def fresh_res_def initial_state_def
  note_hook_def throwing_hook_def
lemmas pipeline_defs = renderMiddleware_def after_response_def try_catch_def try_block_def
  catch_block_def ssr_branch_def ssr_render_def ssr_build_def spa_branch_def is_spa_def
  sendResponse_def setHeader_def res_end_def valid_status_def status_or_def log_error_def
  default_error_response_def and_then_def invoke_def invokeAsync_def Let_def
lemmas glob_defs = micromatch_some_def glob_match_def segment_match_def begins_with_dot_def
lemmas leaves_res_defs = request_leaves_res_def try_leaves_res_def ssr_leaves_res_def
  spa_leaves_res_def

text \<open>
  C1, as stated, fails. When a \<^verbatim>\<open>beforeRender\<close> hook throws and a \<^verbatim>\<open>routeError\<close> hook
  throws in turn, the request ends with no terminal write at all: the transport response is
  left unfinished and the promise of \<^verbatim>\<open>renderMiddleware\<close> is rejected. And when a hook has
  set \<^verbatim>\<open>context.statusCode\<close> to 1000, the send step calls \<^verbatim>\<open>res.end\<close> twice, in the try
  block and again in the catch block; both calls throw and the response is left unfinished.
\<close>

theorem no_terminal_write_when_routeError_throws:
  "filter is_end (events (fst (renderMiddleware (server_of failing_plugins None) 0
       \<lparr>req_url = ''/about''\<rparr> fresh_res))) = []
   \<and> \<not> finished (res (wld (fst (renderMiddleware (server_of failing_plugins None) 0
       \<lparr>req_url = ''/about''\<rparr> fresh_res))))
   \<and> snd (renderMiddleware (server_of failing_plugins None) 0 \<lparr>req_url = ''/about''\<rparr> fresh_res)
       = Rejected (Error ''again'')
   \<and> events (fst (renderMiddleware (server_of bad_status_plugins None) 0
       \<lparr>req_url = ''/about''\<rparr> fresh_res))
     = [Ev_hook ''beforeRender'' 1, Ev_render 0, Ev_renderSSRPage 0,
        Ev_end_threw (js ''<html><div>'') ERR_HTTP_INVALID_STATUS_CODE,
        Ev_consola_error ERR_HTTP_INVALID_STATUS_CODE,
        Ev_end_threw (js ''<html><div>'') ERR_HTTP_INVALID_STATUS_CODE]
   \<and> \<not> finished (res (wld (fst (renderMiddleware (server_of bad_status_plugins None) 0
       \<lparr>req_url = ''/about''\<rparr> fresh_res))))
   \<and> written (res (wld (fst (renderMiddleware (server_of bad_status_plugins None) 0
       \<lparr>req_url = ''/about''\<rparr> fresh_res)))) = []
   \<and> snd (renderMiddleware (server_of bad_status_plugins None) 0 \<lparr>req_url = ''/about''\<rparr> fresh_res)
       = Rejected ERR_HTTP_INVALID_STATUS_CODE"
  by (simp add: pipeline_defs example_defs failing_plugins_def failing_route_error_hook_def
      bad_status_plugins_def bad_status_hook_def js_def)

text \<open>
  C1, amended. For every request the send step finalizes the transport response at most
  once: at most one of its calls of \<^verbatim>\<open>res.end\<close> returns; a send that completes leaves the
  response finished, with the body appended to what was written if it was not finished
  before, and a send that throws leaves \<^verbatim>\<open>finished\<close> and what was written as they were.
  When every hook call and renderer call made for the request leaves the transport response
  alone, and the response was fresh when the request arrived, the request ends either with
  the response still open and nothing written to it, or with the response finished and
  exactly one body written; the latter whenever \<^verbatim>\<open>renderMiddleware\<close> resolves with
  \<^verbatim>\<open>{ context, response }\<close>.
\<close>

theorem at_most_one_terminal_write:
  "length (filter is_end (events (fst (renderMiddleware srv rref req res0)))) \<le> 1
   \<and> (snd (sendResponse s) = Normal \<longrightarrow>
        finished (res (wld (fst (sendResponse s))))
        \<and> events (fst (sendResponse s)) = events s @ [Ev_end (body (response (wld s)))]
        \<and> (\<not> finished (res (wld s)) \<longrightarrow>
             written (res (wld (fst (sendResponse s)))) =
               written (res (wld s)) @ [body (response (wld s))]))
   \<and> (snd (sendResponse s) \<noteq> Normal \<longrightarrow>
        finished (res (wld (fst (sendResponse s)))) = finished (res (wld s))
        \<and> written (res (wld (fst (sendResponse s)))) = written (res (wld s))
        \<and> filter is_end (events (fst (sendResponse s))) = filter is_end (events s))
   \<and> (request_leaves_res srv (initial_state rref req res0)
        \<and> \<not> finished res0 \<and> \<not> headersSent res0 \<longrightarrow>
        (\<not> finished (res (wld (fst (renderMiddleware srv rref req res0))))
         \<and> written (res (wld (fst (renderMiddleware srv rref req res0)))) = written res0
         \<and> filter is_end (events (fst (renderMiddleware srv rref req res0))) = [])
        \<or> (finished (res (wld (fst (renderMiddleware srv rref req res0))))
           \<and> (\<exists>b. written (res (wld (fst (renderMiddleware srv rref req res0)))) = written res0 @ [b]
                 \<and> filter is_end (events (fst (renderMiddleware srv rref req res0))) = [Ev_end b])))
   \<and> (request_leaves_res srv (initial_state rref req res0)
        \<and> \<not> finished res0 \<and> \<not> headersSent res0
        \<and> (\<exists>c r. snd (renderMiddleware srv rref req res0) = Resolved c r) \<longrightarrow>
        finished (res (wld (fst (renderMiddleware srv rref req res0))))
        \<and> (\<exists>b. written (res (wld (fst (renderMiddleware srv rref req res0)))) = written res0 @ [b]
              \<and> filter is_end (events (fst (renderMiddleware srv rref req res0))) = [Ev_end b]))"
proof -
  have a: "length (filter is_end (events (fst (renderMiddleware srv rref req res0)))) \<le> 1"
    by (rule renderMiddleware_at_most_one_end)
  note b = sendResponse_finalizes [of s]
  have c: "(\<not> finished (res (wld (fst (renderMiddleware srv rref req res0))))
         \<and> written (res (wld (fst (renderMiddleware srv rref req res0)))) = written res0
         \<and> filter is_end (events (fst (renderMiddleware srv rref req res0))) = [])
        \<or> (finished (res (wld (fst (renderMiddleware srv rref req res0))))
           \<and> (\<exists>b. written (res (wld (fst (renderMiddleware srv rref req res0)))) = written res0 @ [b]
                 \<and> filter is_end (events (fst (renderMiddleware srv rref req res0))) = [Ev_end b]))"
    if "request_leaves_res srv (initial_state rref req res0)" "\<not> finished res0" "\<not> headersSent res0"
    using renderMiddleware_open [OF that, THEN conjunct2]
    by (auto simp: response_open_def response_sent_def)
  have d: "finished (res (wld (fst (renderMiddleware srv rref req res0))))
        \<and> (\<exists>b. written (res (wld (fst (renderMiddleware srv rref req res0)))) = written res0 @ [b]
              \<and> filter is_end (events (fst (renderMiddleware srv rref req res0))) = [Ev_end b])"
    if "request_leaves_res srv (initial_state rref req res0)" "\<not> finished res0" "\<not> headersSent res0"
      "\<exists>c r. snd (renderMiddleware srv rref req res0) = Resolved c r"
    using renderMiddleware_open [OF that(1,2,3), THEN conjunct1] that(4)
    by (simp add: response_sent_def)
  from a b c d show ?thesis by blast
qed

theorem at_most_one_terminal_write_witness:
  "finished (res (wld (fst (renderMiddleware (server_of noting_plugins None) 0
       \<lparr>req_url = ''/about''\<rparr> fresh_res))))
   \<and> written (res (wld (fst (renderMiddleware (server_of noting_plugins None) 0
       \<lparr>req_url = ''/about''\<rparr> fresh_res)))) = [js ''<html><div>'']
   \<and> filter is_end (events (fst (renderMiddleware (server_of noting_plugins None) 0
       \<lparr>req_url = ''/about''\<rparr> fresh_res))) = [Ev_end (js ''<html><div>'')]"
proof -
  let ?srv = "server_of noting_plugins None"
  let ?r = "renderMiddleware ?srv 0 \<lparr>req_url = ''/about''\<rparr> fresh_res"
  have l: "request_leaves_res ?srv (initial_state 0 \<lparr>req_url = ''/about''\<rparr> fresh_res)"
    by (simp add: leaves_res_defs pipeline_defs example_defs noting_plugins_def)
  have f: "\<not> finished fresh_res" "\<not> headersSent fresh_res" "written fresh_res = []"
    by (simp_all add: fresh_res_def)
  have v: "\<exists>c r. snd ?r = Resolved c r"
    and e: "filter is_end (events (fst ?r)) = [Ev_end (js ''<html><div>'')]"
    by (simp_all add: pipeline_defs example_defs noting_plugins_def js_def)
  from at_most_one_terminal_write [of ?srv 0 "\<lparr>req_url = ''/about''\<rparr>" fresh_res
      "initial_state 0 \<lparr>req_url = ''/about''\<rparr> fresh_res", THEN conjunct2, THEN conjunct2,
      THEN conjunct2, THEN conjunct2] l f v
  have "finished (res (wld (fst ?r)))
        \<and> (\<exists>b. written (res (wld (fst ?r))) = [] @ [b]
              \<and> filter is_end (events (fst ?r)) = [Ev_end b])"
    by simp
  with e show ?thesis by auto
qed

subsection \<open>The catch block\<close>

lemma invokeAsync_events:
  "\<exists>k\<le>length (filter (has_hook name) (plugins srv)).
     events (fst (invokeAsync srv name args s)) =
       events s @ map (\<lambda>p. Ev_hook name (plugin_id p)) (take k (filter (has_hook name) (plugins srv)))
     \<and> (snd (invokeAsync srv name args s) = Normal \<longrightarrow> k = length (filter (has_hook name) (plugins srv)))"
  using call_in_order_events [of "filter (has_hook name) (plugins srv)" True name args s]
  by (auto simp: invokeAsync_def for_plugins_filter)

lemma invoke_events:
  "\<exists>k\<le>length (filter (has_hook name) (plugins srv)).
     events (fst (invoke srv name args s)) =
       events s @ map (\<lambda>p. Ev_hook name (plugin_id p)) (take k (filter (has_hook name) (plugins srv)))
     \<and> (snd (invoke srv name args s) = Normal \<longrightarrow> k = length (filter (has_hook name) (plugins srv)))"
  using call_in_order_events [of "filter (has_hook name) (plugins srv)" False name args s]
  by (auto simp: invoke_def for_plugins_filter)



subsection \<open>Errors in the try block\<close>

text \<open>
  C3, as stated, fails: when \<^verbatim>\<open>render\<close> rejects and a \<^verbatim>\<open>routeError\<close> hook throws, the
  second error leaves \<^verbatim>\<open>renderMiddleware\<close> as a rejection; nothing is sent and the transport
  response stays unfinished.
\<close>

theorem routeError_failure_leaves_request_unanswered:
  "snd (renderMiddleware (failing_render_server rejecting_route_error_plugins) 0
       \<lparr>req_url = ''/about''\<rparr> fresh_res) = Rejected (Error ''again'')
   \<and> events (fst (renderMiddleware (failing_render_server rejecting_route_error_plugins) 0
       \<lparr>req_url = ''/about''\<rparr> fresh_res))
     = [Ev_render 0, Ev_consola_error (Error ''render failed''), Ev_hook ''routeError'' 1]
   \<and> \<not> finished (res (wld (fst (renderMiddleware (failing_render_server rejecting_route_error_plugins) 0
       \<lparr>req_url = ''/about''\<rparr> fresh_res))))
   \<and> written (res (wld (fst (renderMiddleware (failing_render_server rejecting_route_error_plugins) 0
       \<lparr>req_url = ''/about''\<rparr> fresh_res)))) = []"
  by (simp add: pipeline_defs example_defs failing_render_server_def failing_renderer_def
      rejecting_route_error_plugins_def failing_route_error_hook_def)

text \<open>
  C3, amended. An error thrown in the try block is caught once: the try/catch statement
  completes as the catch block entered with that error does. The \<^verbatim>\<open>routeError\<close> hooks are
  invoked in order with the error. If they complete and the response is not finished, the
  send step runs on the response context with the body defaulted to \<^verbatim>\<open>'Server error'\<close> when
  empty and the status 500. With headers not yet sent and a valid status code to send
  (\<^verbatim>\<open>context.statusCode\<close> when set, else 500) this finishes the transport response; with a
  status code outside 100..999 the send throws and the response stays open. If a
  \<^verbatim>\<open>routeError\<close> hook throws, or the send does, the error leaves the statement and nothing
  more is sent.
\<close>

theorem pipeline_error_caught_once:
  assumes "try_block srv s = (s1, Throw err)"
    and "invokeAsync srv ''routeError'' [ArgErr err, ArgResponse, ArgContext, ArgServer]
           (log_error srv err s1) = (s2, c2)"
  shows "try_catch srv s = catch_block srv err s1
       \<and> (\<exists>k\<le>length (filter (has_hook ''routeError'') (plugins srv)).
            events s2 = events (log_error srv err s1)
              @ map (\<lambda>p. Ev_hook ''routeError'' (plugin_id p))
                  (take k (filter (has_hook ''routeError'') (plugins srv)))
            \<and> (c2 = Normal \<longrightarrow> k = length (filter (has_hook ''routeError'') (plugins srv))))
       \<and> (c2 = Normal \<and> \<not> finished (res (wld s2)) \<longrightarrow>
            try_catch srv s =
              sendResponse (s2\<lparr>wld := (wld s2)\<lparr>response :=
                 \<lparr>body = (if body (response (wld s2)) = [] then js ''Server error''
                          else body (response (wld s2))),
                  status = 500\<rparr>\<rparr>\<rparr>))
       \<and> (c2 = Normal \<and> \<not> finished (res (wld s2)) \<and> \<not> headersSent (res (wld s2))
            \<and> valid_status (status_or (ctx_statusCode (context (wld s2))) 500) \<longrightarrow>
            snd (try_catch srv s) = Normal
            \<and> response (wld (fst (try_catch srv s))) =
                \<lparr>body = (if body (response (wld s2)) = [] then js ''Server error''
                         else body (response (wld s2))),
                 status = 500\<rparr>
            \<and> finished (res (wld (fst (try_catch srv s))))
            \<and> written (res (wld (fst (try_catch srv s)))) =
                written (res (wld s2))
                  @ [if body (response (wld s2)) = [] then js ''Server error''
                     else body (response (wld s2))]
            \<and> statusCode (res (wld (fst (try_catch srv s)))) =
                status_or (ctx_statusCode (context (wld s2))) 500
            \<and> events (fst (try_catch srv s)) =
                events s2 @ [Ev_end (if body (response (wld s2)) = [] then js ''Server error''
                                     else body (response (wld s2)))])
       \<and> (c2 = Normal \<and> \<not> finished (res (wld s2)) \<and> \<not> headersSent (res (wld s2))
            \<and> \<not> valid_status (status_or (ctx_statusCode (context (wld s2))) 500) \<longrightarrow>
            snd (try_catch srv s) = Throw ERR_HTTP_INVALID_STATUS_CODE
            \<and> \<not> finished (res (wld (fst (try_catch srv s))))
            \<and> written (res (wld (fst (try_catch srv s)))) = written (res (wld s2)))
       \<and> (c2 = Normal \<and> finished (res (wld s2)) \<longrightarrow> try_catch srv s = (s2, Normal))
       \<and> (\<forall>e2. c2 = Throw e2 \<longrightarrow> try_catch srv s = (s2, Throw e2))"
proof -
  let ?d = "s2\<lparr>wld := (wld s2)\<lparr>response :=
                 \<lparr>body = (if body (response (wld s2)) = [] then js ''Server error''
                          else body (response (wld s2))),
                  status = 500\<rparr>\<rparr>\<rparr>"
  have tc: "try_catch srv s = catch_block srv err s1"
    using assms(1) by (simp add: try_catch_def)
  from invokeAsync_events [of "''routeError''" srv "[ArgErr err, ArgResponse, ArgContext, ArgServer]"
      "log_error srv err s1"] assms(2)
  have a: "\<exists>k\<le>length (filter (has_hook ''routeError'') (plugins srv)).
            events s2 = events (log_error srv err s1)
              @ map (\<lambda>p. Ev_hook ''routeError'' (plugin_id p))
                  (take k (filter (has_hook ''routeError'') (plugins srv)))
            \<and> (c2 = Normal \<longrightarrow> k = length (filter (has_hook ''routeError'') (plugins srv)))"
    by simp
  have b: "try_catch srv s = sendResponse ?d" if "c2 = Normal" "\<not> finished (res (wld s2))"
    using that assms(2) by (simp add: tc catch_block_def and_then_def default_error_response_def)
  have c: "snd (try_catch srv s) = Normal
            \<and> response (wld (fst (try_catch srv s))) = response (wld ?d)
            \<and> finished (res (wld (fst (try_catch srv s))))
            \<and> written (res (wld (fst (try_catch srv s)))) = written (res (wld ?d)) @ [body (response (wld ?d))]
            \<and> statusCode (res (wld (fst (try_catch srv s)))) =
                status_or (ctx_statusCode (context (wld ?d))) (status (response (wld ?d)))
            \<and> events (fst (try_catch srv s)) = events ?d @ [Ev_end (body (response (wld ?d)))]"
    if "c2 = Normal" "\<not> finished (res (wld s2))" "\<not> headersSent (res (wld s2))"
      "valid_status (status_or (ctx_statusCode (context (wld s2))) 500)"
  proof -
    have "\<not> headersSent (res (wld ?d))" "\<not> finished (res (wld ?d))"
      "valid_status (status_or (ctx_statusCode (context (wld ?d))) (status (response (wld ?d))))"
      using that by simp_all
    from sendResponse_sends(1,2,3,5,6,7) [OF this] show ?thesis
      unfolding b [OF that(1,2)] by blast
  qed
  have c2: "snd (try_catch srv s) = Throw ERR_HTTP_INVALID_STATUS_CODE
            \<and> \<not> finished (res (wld (fst (try_catch srv s))))
            \<and> written (res (wld (fst (try_catch srv s)))) = written (res (wld ?d))"
    if "c2 = Normal" "\<not> finished (res (wld s2))" "\<not> headersSent (res (wld s2))"
      "\<not> valid_status (status_or (ctx_statusCode (context (wld s2))) 500)"
  proof -
    have "\<not> headersSent (res (wld ?d))" "\<not> finished (res (wld ?d))"
      "\<not> valid_status (status_or (ctx_statusCode (context (wld ?d))) (status (response (wld ?d))))"
      using that by simp_all
    from sendResponse_invalid_status(1,5,7) [OF this] show ?thesis
      unfolding b [OF that(1,2)] by blast
  qed
  have d: "try_catch srv s = (s2, Throw e2)" if "c2 = Throw e2" for e2
    using that assms(2) by (simp add: tc catch_block_def and_then_def)
  have f: "try_catch srv s = (s2, Normal)" if "c2 = Normal" "finished (res (wld s2))"
    using that assms(2) by (simp add: tc catch_block_def and_then_def)
  from c have c': "c2 = Normal \<and> \<not> finished (res (wld s2)) \<and> \<not> headersSent (res (wld s2))
            \<and> valid_status (status_or (ctx_statusCode (context (wld s2))) 500) \<longrightarrow>
            snd (try_catch srv s) = Normal
            \<and> response (wld (fst (try_catch srv s))) =
                \<lparr>body = (if body (response (wld s2)) = [] then js ''Server error''
                         else body (response (wld s2))),
                 status = 500\<rparr>
            \<and> finished (res (wld (fst (try_catch srv s))))
            \<and> written (res (wld (fst (try_catch srv s)))) =
                written (res (wld s2))
                  @ [if body (response (wld s2)) = [] then js ''Server error''
                     else body (response (wld s2))]
            \<and> statusCode (res (wld (fst (try_catch srv s)))) =
                status_or (ctx_statusCode (context (wld s2))) 500
            \<and> events (fst (try_catch srv s)) =
                events s2 @ [Ev_end (if body (response (wld s2)) = [] then js ''Server error''
                                     else body (response (wld s2)))]"
    by simp
  from c2 have c2': "c2 = Normal \<and> \<not> finished (res (wld s2)) \<and> \<not> headersSent (res (wld s2))
            \<and> \<not> valid_status (status_or (ctx_statusCode (context (wld s2))) 500) \<longrightarrow>
            snd (try_catch srv s) = Throw ERR_HTTP_INVALID_STATUS_CODE
            \<and> \<not> finished (res (wld (fst (try_catch srv s))))
            \<and> written (res (wld (fst (try_catch srv s)))) = written (res (wld s2))"
    by simp
  from tc a b c' c2' d f show ?thesis by blast
qed

theorem pipeline_error_caught_once_witness:
  "snd (try_catch (failing_render_server route_error_plugins)
         (initial_state 0 \<lparr>req_url = ''/about''\<rparr> fresh_res)) = Normal
   \<and> response (wld (fst (try_catch (failing_render_server route_error_plugins)
         (initial_state 0 \<lparr>req_url = ''/about''\<rparr> fresh_res))))
       = \<lparr>body = js ''Server error'', status = 500\<rparr>
   \<and> statusCode (res (wld (fst (try_catch (failing_render_server route_error_plugins)
         (initial_state 0 \<lparr>req_url = ''/about''\<rparr> fresh_res))))) = 500
   \<and> written (res (wld (fst (try_catch (failing_render_server route_error_plugins)
         (initial_state 0 \<lparr>req_url = ''/about''\<rparr> fresh_res))))) = [js ''Server error'']
   \<and> events (fst (try_catch (failing_render_server route_error_plugins)
         (initial_state 0 \<lparr>req_url = ''/about''\<rparr> fresh_res)))
       = [Ev_render 0, Ev_consola_error (Error ''render failed''), Ev_hook ''routeError'' 1,
          Ev_end (js ''Server error'')]"
proof -
  let ?srv = "failing_render_server route_error_plugins"
  let ?s = "initial_state 0 \<lparr>req_url = ''/about''\<rparr> fresh_res"
  let ?s1 = "fst (try_block ?srv ?s)"
  let ?m = "invokeAsync ?srv ''routeError''
              [ArgErr (Error ''render failed''), ArgResponse, ArgContext, ArgServer]
              (log_error ?srv (Error ''render failed'') ?s1)"
  have 1: "try_block ?srv ?s = (?s1, Throw (Error ''render failed''))"
    by (simp add: pipeline_defs example_defs failing_render_server_def failing_renderer_def
        route_error_plugins_def prod_eq_iff)
  have 2: "?m = (fst ?m, snd ?m)" by simp
  have 3: "snd ?m = Normal" "\<not> finished (res (wld (fst ?m)))" "\<not> headersSent (res (wld (fst ?m)))"
    "body (response (wld (fst ?m))) = []" "written (res (wld (fst ?m))) = []"
    "ctx_statusCode (context (wld (fst ?m))) = None"
    "events (fst ?m) = [Ev_render 0, Ev_consola_error (Error ''render failed''), Ev_hook ''routeError'' 1]"
    by (simp_all add: pipeline_defs example_defs failing_render_server_def failing_renderer_def
        route_error_plugins_def)
  note t = pipeline_error_caught_once [OF 1 2, THEN conjunct2, THEN conjunct2, THEN conjunct2,
      THEN conjunct1]
  from t 3 show ?thesis
    by (simp add: status_or_def valid_status_def)
qed

subsection \<open>Renderer calls along the pipeline\<close>

lemma invokeAsync_calls:
  "filter is_renderer_call (events (fst (invokeAsync srv name args s))) = filter is_renderer_call (events s)"
  by (simp add: invokeAsync_def for_plugins_keeps)

lemma invoke_calls:
  "filter is_renderer_call (events (fst (invoke srv name args s))) = filter is_renderer_call (events s)"
  by (simp add: invoke_def for_plugins_keeps)

lemma sendResponse_calls:
  "filter is_renderer_call (events (fst (sendResponse s))) = filter is_renderer_call (events s)"
  by (simp add: sendResponse_def setHeader_def Let_def res_end_def)

lemma spa_branch_calls:
  "filter is_renderer_call (events (fst (spa_branch srv s))) =
     filter is_renderer_call (events s) @ [Ev_renderSPAPage (this_renderer (wld s))]"
  by (auto simp: spa_branch_def Let_def split: prod.splits sum.splits)

lemma ssr_render_calls:
  "filter is_renderer_call (events (fst (ssr_render srv s))) =
     filter is_renderer_call (events s) @ [Ev_render (this_renderer (wld s))]"
  by (auto simp: ssr_render_def Let_def split: prod.splits sum.splits)

lemma ssr_build_calls:
  "filter is_renderer_call (events (fst (ssr_build srv s))) =
     filter is_renderer_call (events s) @ [Ev_renderSSRPage (this_renderer (wld s))]"
  by (auto simp: ssr_build_def Let_def split: prod.splits sum.splits)

text \<open>The renderer calls of the SSR process, each with the renderer current at the call.\<close>

lemma ssr_branch_calls:
  "filter is_renderer_call (events (fst (ssr_branch srv s))) =
     filter is_renderer_call (events s)
     @ Ev_render (this_renderer (wld s))
     # (if snd (ssr_render srv s) = Normal
           \<and> snd (invokeAsync srv ''beforeBuild'' [ArgResponse, ArgContext, ArgServer]
                  (fst (ssr_render srv s))) = Normal
        then [Ev_renderSSRPage (this_renderer (wld (fst
                (invokeAsync srv ''beforeBuild'' [ArgResponse, ArgContext, ArgServer]
                  (fst (ssr_render srv s))))))]
        else [])"
  by (simp add: ssr_branch_def fst_and_then snd_and_then ssr_render_calls ssr_build_calls
      invokeAsync_calls)

lemma try_block_calls:
  assumes "invokeAsync srv ''beforeRender'' [ArgContext, ArgServer] s = (s1, c1)"
  shows "filter is_renderer_call (events (fst (try_block srv s))) =
     filter is_renderer_call (events s)
     @ (if c1 \<noteq> Normal \<or> finished (res (wld s1)) then []
        else if is_spa srv (wld s1) then [Ev_renderSPAPage (this_renderer (wld s1))]
        else Ev_render (this_renderer (wld s1))
           # (if snd (ssr_render srv s1) = Normal
                 \<and> snd (invokeAsync srv ''beforeBuild'' [ArgResponse, ArgContext, ArgServer]
                        (fst (ssr_render srv s1))) = Normal
              then [Ev_renderSSRPage (this_renderer (wld (fst
                      (invokeAsync srv ''beforeBuild'' [ArgResponse, ArgContext, ArgServer]
                        (fst (ssr_render srv s1))))))]
              else []))"
proof -
  have 1: "filter is_renderer_call (events s1) = filter is_renderer_call (events s)"
    using invokeAsync_calls [of srv "''beforeRender''" "[ArgContext, ArgServer]" s] assms by simp
  show ?thesis
    using assms 1
    by (simp add: try_block_def fst_and_then snd_and_then invokeAsync_calls sendResponse_calls
        spa_branch_calls ssr_branch_calls)
qed

lemma catch_block_calls:
  "filter is_renderer_call (events (fst (catch_block srv err s))) = filter is_renderer_call (events s)"
  by (simp add: catch_block_def fst_and_then invokeAsync_calls sendResponse_calls log_error_def
      default_error_response_def)

lemma try_catch_calls:
  "filter is_renderer_call (events (fst (try_catch srv s))) =
     filter is_renderer_call (events (fst (try_block srv s)))"
  by (cases "try_block srv s"; cases "snd (try_block srv s)")
     (simp_all add: try_catch_def catch_block_calls)

lemma after_response_calls:
  "filter is_renderer_call (events (fst (after_response srv m))) = filter is_renderer_call (events (fst m))"
proof (cases m)
  case (Pair s c)
  from invoke_calls [of srv "''afterResponse''" "[ArgContext, ArgServer]" s] Pair show ?thesis
    by (cases c; cases "invoke srv ''afterResponse'' [ArgContext, ArgServer] s")
       (auto simp: after_response_def split: completion.splits)
qed

lemma renderMiddleware_calls:
  "filter is_renderer_call (events (fst (renderMiddleware srv rref req res0))) =
     filter is_renderer_call (events (fst (try_block srv (initial_state rref req res0))))"
  by (simp add: renderMiddleware_def after_response_calls try_catch_calls)

subsection \<open>Route classification and the renderer reference\<close>

text \<open>The matcher on some patterns and strings.\<close>

lemma glob_match_examples:
  "glob_match ''/app/**'' ''/app/dashboard''"
  "glob_match ''/app/**'' ''/app/a/b''"
  "\<not> glob_match ''/app/**'' ''/about''"
  "\<not> glob_match ''/app/**'' ''/app/.git/config''"
  "glob_match ''/app/*'' ''/app/x''"
  "\<not> glob_match ''/app/*'' ''/app/''"
  "\<not> glob_match ''/app/*'' ''/app/.env''"
  "\<not> glob_match ''/app/*'' ''/app/x/y''"
  "glob_match ''/a/**/b'' ''/a/b''"
  "glob_match ''/a/**/b'' ''/a/x/y/b''"
  "glob_match ''/a?c'' ''/abc''"
  "glob_match ''/*.html'' ''/index.html''"
  "\<not> glob_match ''/about'' ''/about?x=1''"
  "glob_match ''/about'' ''/about''"
  "glob_match ''!/api/**'' ''/about''"
  "\<not> glob_match ''!/api/**'' ''/api/users''"
  by (simp_all add: glob_defs)

text \<open>
  C5, as stated, fails on the query string: with the SPA pattern \<^verbatim>\<open>/about\<close>, the request
  \<^verbatim>\<open>/about?x=1\<close>, whose path matches, is rendered on the server, since the whole
  \<^verbatim>\<open>req.url\<close> is what is matched; the request \<^verbatim>\<open>/about\<close> takes the SPA branch.
\<close>

theorem query_string_changes_classification:
  "micromatch_some (url_path ''/about?x=1'') [''/about'']
   \<and> filter is_renderer_call (events (fst (renderMiddleware (server_of [] (Some [''/about''])) 0
         \<lparr>req_url = ''/about?x=1''\<rparr> fresh_res))) = [Ev_render 0, Ev_renderSSRPage 0]
   \<and> filter is_renderer_call (events (fst (renderMiddleware (server_of [] (Some [''/about''])) 0
         \<lparr>req_url = ''/about''\<rparr> fresh_res))) = [Ev_renderSPAPage 0]"
  by (simp add: pipeline_defs example_defs glob_defs url_path_def)

text \<open>
  C5, amended. Once the \<^verbatim>\<open>beforeRender\<close> hooks have completed with the response not
  finished, the route is classified by matching the whole \<^verbatim>\<open>context.url\<close> (the request's
  \<^verbatim>\<open>req.url\<close>, query string included, unless a hook changed it) against the SPA patterns.
  On a match the only renderer call of the request is \<^verbatim>\<open>renderSPAPage\<close>; otherwise the
  renderer calls are \<^verbatim>\<open>render\<close>, followed at most by \<^verbatim>\<open>renderSSRPage\<close>, and
  \<^verbatim>\<open>renderSPAPage\<close> is not called.
\<close>

theorem route_classification_exclusive:
  assumes "invokeAsync srv ''beforeRender'' [ArgContext, ArgServer] (initial_state rref req res0)
             = (s1, Normal)"
    and "\<not> finished (res (wld s1))"
  shows "is_spa srv (wld s1) =
           (\<exists>pats. spaPaths srv = Some pats \<and> pats \<noteq> []
              \<and> micromatch_some (url (context (wld s1))) pats)
       \<and> (hooks_keep srv (\<lambda>wd. url (context wd)) \<longrightarrow> url (context (wld s1)) = req_url req)
       \<and> (is_spa srv (wld s1) \<longrightarrow>
            filter is_renderer_call (events (fst (renderMiddleware srv rref req res0)))
              = [Ev_renderSPAPage (this_renderer (wld s1))])
       \<and> (\<not> is_spa srv (wld s1) \<longrightarrow>
            filter is_renderer_call (events (fst (renderMiddleware srv rref req res0)))
              = [Ev_render (this_renderer (wld s1))]
            \<or> (\<exists>r. filter is_renderer_call (events (fst (renderMiddleware srv rref req res0)))
                  = [Ev_render (this_renderer (wld s1)), Ev_renderSSRPage r]))"
proof -
  have a: "is_spa srv (wld s1) =
           (\<exists>pats. spaPaths srv = Some pats \<and> pats \<noteq> []
              \<and> micromatch_some (url (context (wld s1))) pats)"
    by (cases "spaPaths srv") (simp_all add: is_spa_def)
  have b: "url (context (wld s1)) = req_url req" if "hooks_keep srv (\<lambda>wd. url (context wd))"
    using invokeAsync_keeps_world [OF that, of "''beforeRender''" "[ArgContext, ArgServer]"
        "initial_state rref req res0"] assms(1)
    by (simp add: initial_state_def)
  have e: "filter is_renderer_call (events (initial_state rref req res0)) = []"
    by (simp add: initial_state_def)
  note c = try_block_calls [OF assms(1), unfolded e]
  from a b c assms(2) show ?thesis
    by (auto simp: renderMiddleware_calls)
qed

theorem route_classification_exclusive_witness:
  "filter is_renderer_call (events (fst (renderMiddleware (server_of noting_plugins (Some [''/app/**''])) 0
         \<lparr>req_url = ''/app/dashboard''\<rparr> fresh_res))) = [Ev_renderSPAPage 0]
   \<and> (filter is_renderer_call (events (fst (renderMiddleware (server_of noting_plugins (Some [''/app/**''])) 0
         \<lparr>req_url = ''/about''\<rparr> fresh_res))) = [Ev_render 0]
      \<or> (\<exists>r. filter is_renderer_call (events (fst (renderMiddleware (server_of noting_plugins (Some [''/app/**''])) 0
         \<lparr>req_url = ''/about''\<rparr> fresh_res))) = [Ev_render 0, Ev_renderSSRPage r]))"
proof -
  let ?srv = "server_of noting_plugins (Some [''/app/**''])"
  let ?m = "\<lambda>u. invokeAsync ?srv ''beforeRender'' [ArgContext, ArgServer]
              (initial_state 0 \<lparr>req_url = u\<rparr> fresh_res)"
  have 1: "?m u = (fst (?m u), Normal)" "\<not> finished (res (wld (fst (?m u))))"
    "this_renderer (wld (fst (?m u))) = 0" for u
    by (simp_all add: pipeline_defs example_defs noting_plugins_def prod_eq_iff)
  have 2: "is_spa ?srv (wld (fst (?m ''/app/dashboard'')))"
    "\<not> is_spa ?srv (wld (fst (?m ''/about'')))"
    by (simp_all add: pipeline_defs example_defs noting_plugins_def glob_defs)
  from route_classification_exclusive [OF 1(1,2), of "''/app/dashboard''"]
    route_classification_exclusive [OF 1(1,2), of "''/about''"] 1(3) 2
  show ?thesis by simp
qed

text \<open>
  C9, as stated, fails: the pipeline holds no renderer of its own. When the server's renderer
  is replaced while the \<^verbatim>\<open>beforeBuild\<close> hooks are awaited, the request calls
  \<^verbatim>\<open>render\<close> on the old renderer and \<^verbatim>\<open>renderSSRPage\<close> on the new one, and the page
  sent mixes the two.
\<close>

theorem renderer_swapped_between_calls:
  "filter is_renderer_call (events (fst (renderMiddleware hot_swap_server 0
       \<lparr>req_url = ''/about''\<rparr> fresh_res))) = [Ev_render 0, Ev_renderSSRPage 1]
   \<and> written (res (wld (fst (renderMiddleware hot_swap_server 0
       \<lparr>req_url = ''/about''\<rparr> fresh_res)))) = [js ''<html v2><div>'']"
  by (simp add: pipeline_defs example_defs hot_swap_server_def rebuilt_renderer_def
      rebuild_during_hook_def js_def)

text \<open>
  C9, amended. The pipeline reads \<^verbatim>\<open>this.renderer\<close> anew at each renderer call: in the
  SSR process \<^verbatim>\<open>render\<close> is called on the renderer current after the \<^verbatim>\<open>beforeRender\<close>
  hooks and \<^verbatim>\<open>renderSSRPage\<close> on the one current after the \<^verbatim>\<open>beforeBuild\<close> hooks. A
  request sees a single renderer, the one current when it arrived, provided the reference is
  not replaced while its hooks and renderer calls are awaited.
\<close>

theorem renderer_read_at_each_call:
  "(hooks_keep srv this_renderer \<and> renderers_keep srv this_renderer \<longrightarrow>
      (\<forall>ev\<in>set (events (fst (renderMiddleware srv rref req res0))).
         is_renderer_call ev \<longrightarrow>
           ev = Ev_renderSPAPage rref \<or> ev = Ev_render rref \<or> ev = Ev_renderSSRPage rref))
   \<and> (\<forall>s1 s2 s3.
        invokeAsync srv ''beforeRender'' [ArgContext, ArgServer] (initial_state rref req res0)
          = (s1, Normal)
        \<and> \<not> finished (res (wld s1)) \<and> \<not> is_spa srv (wld s1)
        \<and> ssr_render srv s1 = (s2, Normal)
        \<and> invokeAsync srv ''beforeBuild'' [ArgResponse, ArgContext, ArgServer] s2 = (s3, Normal)
        \<longrightarrow> filter is_renderer_call (events (fst (renderMiddleware srv rref req res0)))
              = [Ev_render (this_renderer (wld s1)), Ev_renderSSRPage (this_renderer (wld s3))])"
proof (intro conjI impI allI)
  fix s1 s2 s3
  assume a: "invokeAsync srv ''beforeRender'' [ArgContext, ArgServer] (initial_state rref req res0)
          = (s1, Normal)
        \<and> \<not> finished (res (wld s1)) \<and> \<not> is_spa srv (wld s1)
        \<and> ssr_render srv s1 = (s2, Normal)
        \<and> invokeAsync srv ''beforeBuild'' [ArgResponse, ArgContext, ArgServer] s2 = (s3, Normal)"
  have e: "filter is_renderer_call (events (initial_state rref req res0)) = []"
    by (simp add: initial_state_def)
  from a have b: "invokeAsync srv ''beforeRender'' [ArgContext, ArgServer] (initial_state rref req res0)
          = (s1, Normal)" by simp
  from a try_block_calls [OF b, unfolded e]
  show "filter is_renderer_call (events (fst (renderMiddleware srv rref req res0)))
              = [Ev_render (this_renderer (wld s1)), Ev_renderSSRPage (this_renderer (wld s3))]"
    by (simp add: renderMiddleware_calls)
next
  assume k: "hooks_keep srv this_renderer \<and> renderers_keep srv this_renderer"
  then have hk: "hooks_keep srv this_renderer" and rk: "renderers_keep srv this_renderer"
    by simp_all
  define m1 where "m1 = invokeAsync srv ''beforeRender'' [ArgContext, ArgServer] (initial_state rref req res0)"
  define m3 where "m3 = invokeAsync srv ''beforeBuild'' [ArgResponse, ArgContext, ArgServer]
                          (fst (ssr_render srv (fst m1)))"
  have r1: "this_renderer (wld (fst m1)) = rref"
    using invokeAsync_keeps_world [OF hk, of "''beforeRender''" "[ArgContext, ArgServer]"
        "initial_state rref req res0"]
    by (simp add: m1_def initial_state_def)
  have r2: "this_renderer (wld (fst (ssr_render srv (fst m1)))) = rref"
    using ssr_render_keeps_world [where f = this_renderer, OF rk, of "fst m1"] r1 by simp
  have r3: "this_renderer (wld (fst m3)) = rref"
    using invokeAsync_keeps_world [OF hk, of "''beforeBuild''" "[ArgResponse, ArgContext, ArgServer]"
        "fst (ssr_render srv (fst m1))"] r2
    by (simp add: m3_def)
  have e: "filter is_renderer_call (events (initial_state rref req res0)) = []"
    by (simp add: initial_state_def)
  have m: "invokeAsync srv ''beforeRender'' [ArgContext, ArgServer] (initial_state rref req res0)
             = (fst m1, snd m1)"
    by (simp add: m1_def)
  have "set (filter is_renderer_call (events (fst (renderMiddleware srv rref req res0))))
          \<subseteq> {Ev_renderSPAPage rref, Ev_render rref, Ev_renderSSRPage rref}"
    using try_block_calls [OF m, unfolded e] r1 r3
    by (auto simp: renderMiddleware_calls m3_def [symmetric])
  then show "\<forall>ev\<in>set (events (fst (renderMiddleware srv rref req res0))).
         is_renderer_call ev \<longrightarrow>
           ev = Ev_renderSPAPage rref \<or> ev = Ev_render rref \<or> ev = Ev_renderSSRPage rref"
    by auto
qed

theorem renderer_read_at_each_call_witness:
  "filter is_renderer_call (events (fst (renderMiddleware (server_of noting_plugins None) 0
       \<lparr>req_url = ''/about''\<rparr> fresh_res))) = [Ev_render 0, Ev_renderSSRPage 0]"
proof -
  let ?srv = "server_of noting_plugins None"
  let ?m1 = "invokeAsync ?srv ''beforeRender'' [ArgContext, ArgServer]
               (initial_state 0 \<lparr>req_url = ''/about''\<rparr> fresh_res)"
  let ?m2 = "ssr_render ?srv (fst ?m1)"
  let ?m3 = "invokeAsync ?srv ''beforeBuild'' [ArgResponse, ArgContext, ArgServer] (fst ?m2)"
  have 1: "?m1 = (fst ?m1, Normal)" "\<not> finished (res (wld (fst ?m1)))" "\<not> is_spa ?srv (wld (fst ?m1))"
    "?m2 = (fst ?m2, Normal)" "?m3 = (fst ?m3, Normal)"
    by (simp_all add: pipeline_defs example_defs noting_plugins_def prod_eq_iff)
  have 2: "this_renderer (wld (fst ?m1)) = 0" "this_renderer (wld (fst ?m3)) = 0"
    by (simp_all add: pipeline_defs example_defs noting_plugins_def)
  from renderer_read_at_each_call [of ?srv 0 "\<lparr>req_url = ''/about''\<rparr>" fresh_res, THEN conjunct2,
      rule_format, of "fst ?m1" "fst ?m2" "fst ?m3"] 1
  have "filter is_renderer_call (events (fst (renderMiddleware ?srv 0 \<lparr>req_url = ''/about''\<rparr> fresh_res)))
          = [Ev_render (this_renderer (wld (fst ?m1))), Ev_renderSSRPage (this_renderer (wld (fst ?m3)))]"
    by blast
  with 2 show ?thesis by simp
qed

subsection \<open>Redirections and the afterResponse hooks\<close>

text \<open>
  C2, as stated, fails: a \<^verbatim>\<open>beforeRender\<close> hook that sets \<^verbatim>\<open>context.redirected\<close> without
  ending the response does not stop the pipeline. On an SPA route the later \<^verbatim>\<open>beforeRender\<close>
  hook, the render, the \<^verbatim>\<open>rendered\<close> hook and the send all run, and the page is sent with
  status 200.
\<close>

theorem redirected_flag_alone_does_not_stop:
  "events (fst (renderMiddleware (server_of flagging_plugins (Some [''/app/**''])) 0
       \<lparr>req_url = ''/app/dashboard''\<rparr> fresh_res))
     = [Ev_hook ''beforeRender'' 1, Ev_hook ''beforeRender'' 2, Ev_renderSPAPage 0,
        Ev_hook ''rendered'' 2, Ev_end (js ''<spa>'')]
   \<and> statusCode (res (wld (fst (renderMiddleware (server_of flagging_plugins (Some [''/app/**''])) 0
       \<lparr>req_url = ''/app/dashboard''\<rparr> fresh_res)))) = 200
   \<and> written (res (wld (fst (renderMiddleware (server_of flagging_plugins (Some [''/app/**''])) 0
       \<lparr>req_url = ''/app/dashboard''\<rparr> fresh_res)))) = [js ''<spa>'']
   \<and> redirected (context (wld (fst (renderMiddleware (server_of flagging_plugins (Some [''/app/**''])) 0
       \<lparr>req_url = ''/app/dashboard''\<rparr> fresh_res))))"
  by (simp add: pipeline_defs example_defs flagging_plugins_def flag_redirect_hook_def
      glob_defs js_def)

text \<open>
  C2, amended. What stops the pipeline after the \<^verbatim>\<open>beforeRender\<close> hooks is a finished
  transport response: then there is no route classification, no render, no
  \<^verbatim>\<open>beforeBuild\<close>, no \<^verbatim>\<open>rendered\<close> and no send; the only calls that follow are those of the
  \<^verbatim>\<open>afterResponse\<close> hooks. The flag \<^verbatim>\<open>context.redirected\<close> is tested once, after
  \<^verbatim>\<open>render\<close> in the SSR process: if it is set there, the request ends with that call, and
  \<^verbatim>\<open>renderMiddleware\<close> resolves with \<^verbatim>\<open>undefined\<close>.
\<close>

theorem finished_response_stops_pipeline:
  assumes "invokeAsync srv ''beforeRender'' [ArgContext, ArgServer] (initial_state rref req res0)
             = (s1, Normal)"
  shows "(finished (res (wld s1)) \<longrightarrow>
            try_catch srv (initial_state rref req res0) = (s1, Normal)
            \<and> (\<exists>k\<le>length (filter (has_hook ''afterResponse'') (plugins srv)).
                 events (fst (renderMiddleware srv rref req res0)) =
                   events s1 @ map (\<lambda>p. Ev_hook ''afterResponse'' (plugin_id p))
                     (take k (filter (has_hook ''afterResponse'') (plugins srv)))))
       \<and> (\<forall>wd b. \<not> finished (res (wld s1)) \<and> \<not> is_spa srv (wld s1)
            \<and> render (renderers srv (this_renderer (wld s1))) (wld s1) = (wd, Inr b)
            \<and> redirected (context wd)
            \<longrightarrow> renderMiddleware srv rref req res0 =
                  (s1\<lparr>wld := wd\<lparr>response := (response wd)\<lparr>body := b\<rparr>\<rparr>,
                      events := events s1 @ [Ev_render (this_renderer (wld s1))]\<rparr>,
                   Resolved_undefined))"
proof (intro conjI impI allI)
  assume f: "finished (res (wld s1))"
  from assms f show tc: "try_catch srv (initial_state rref req res0) = (s1, Normal)"
    by (simp add: try_catch_def try_block_def and_then_def)
  have "fst (renderMiddleware srv rref req res0)
          = fst (invoke srv ''afterResponse'' [ArgContext, ArgServer] s1)"
    by (cases "invoke srv ''afterResponse'' [ArgContext, ArgServer] s1")
       (auto simp: renderMiddleware_def tc after_response_def split: completion.splits)
  with invoke_events [of "''afterResponse''" srv "[ArgContext, ArgServer]" s1]
  show "\<exists>k\<le>length (filter (has_hook ''afterResponse'') (plugins srv)).
                 events (fst (renderMiddleware srv rref req res0)) =
                   events s1 @ map (\<lambda>p. Ev_hook ''afterResponse'' (plugin_id p))
                     (take k (filter (has_hook ''afterResponse'') (plugins srv)))"
    by auto
next
  fix wd b
  assume a: "\<not> finished (res (wld s1)) \<and> \<not> is_spa srv (wld s1)
            \<and> render (renderers srv (this_renderer (wld s1))) (wld s1) = (wd, Inr b)
            \<and> redirected (context wd)"
  then have "ssr_branch srv s1 =
      (s1\<lparr>wld := wd\<lparr>response := (response wd)\<lparr>body := b\<rparr>\<rparr>,
          events := events s1 @ [Ev_render (this_renderer (wld s1))]\<rparr>, Return)"
    by (simp add: ssr_branch_def ssr_render_def and_then_def Let_def)
  with assms a show "renderMiddleware srv rref req res0 =
                  (s1\<lparr>wld := wd\<lparr>response := (response wd)\<lparr>body := b\<rparr>\<rparr>,
                      events := events s1 @ [Ev_render (this_renderer (wld s1))]\<rparr>,
                   Resolved_undefined)"
    by (simp add: renderMiddleware_def after_response_def try_catch_def try_block_def and_then_def)
qed

theorem finished_response_stops_pipeline_witness:
  "events (fst (renderMiddleware (server_of redirecting_plugins None) 0
       \<lparr>req_url = ''/account''\<rparr> fresh_res))
     = [Ev_hook ''beforeRender'' 1, Ev_hook ''afterResponse'' 2]
   \<and> (\<exists>k\<le>length (filter (has_hook ''afterResponse'') (plugins (server_of redirecting_plugins None))).
         events (fst (renderMiddleware (server_of redirecting_plugins None) 0
             \<lparr>req_url = ''/account''\<rparr> fresh_res)) =
           [Ev_hook ''beforeRender'' 1] @ map (\<lambda>p. Ev_hook ''afterResponse'' (plugin_id p))
             (take k (filter (has_hook ''afterResponse'') (plugins (server_of redirecting_plugins None)))))"
proof -
  let ?srv = "server_of redirecting_plugins None"
  let ?m = "invokeAsync ?srv ''beforeRender'' [ArgContext, ArgServer]
              (initial_state 0 \<lparr>req_url = ''/account''\<rparr> fresh_res)"
  have 1: "?m = (fst ?m, Normal)"
    by (simp add: pipeline_defs example_defs redirecting_plugins_def redirect_hook_def prod_eq_iff)
  have 2: "finished (res (wld (fst ?m)))" "events (fst ?m) = [Ev_hook ''beforeRender'' 1]"
    by (simp_all add: pipeline_defs example_defs redirecting_plugins_def redirect_hook_def)
  have 3: "events (fst (renderMiddleware ?srv 0 \<lparr>req_url = ''/account''\<rparr> fresh_res))
     = [Ev_hook ''beforeRender'' 1, Ev_hook ''afterResponse'' 2]"
    by (simp add: pipeline_defs example_defs redirecting_plugins_def redirect_hook_def)
  from finished_response_stops_pipeline [OF 1, THEN conjunct1] 2 3 show ?thesis
    by simp
qed

text \<open>
  C4, as stated, fails: the call of the \<^verbatim>\<open>afterResponse\<close> hooks is outside the try block
  and has no handler. When such a hook throws after the page was sent, the error is not
  logged and \<^verbatim>\<open>renderMiddleware\<close> rejects with it.
\<close>

theorem afterResponse_error_reaches_caller:
  "snd (renderMiddleware (server_of after_response_failing_plugins None) 0
       \<lparr>req_url = ''/about''\<rparr> fresh_res) = Rejected (Error ''boom'')
   \<and> events (fst (renderMiddleware (server_of after_response_failing_plugins None) 0
       \<lparr>req_url = ''/about''\<rparr> fresh_res))
     = [Ev_render 0, Ev_renderSSRPage 0, Ev_end (js ''<html><div>''), Ev_hook ''afterResponse'' 1]"
  by (simp add: pipeline_defs example_defs after_response_failing_plugins_def js_def)

text \<open>
  C4, amended. When the try/catch statement completes normally (the try block succeeded, or
  its error was handled by the catch block), the \<^verbatim>\<open>afterResponse\<close> hooks are run
  synchronously, in registration order, and \<^verbatim>\<open>renderMiddleware\<close> resolves with
  \<^verbatim>\<open>{ context, response }\<close> if they complete. An error thrown by an \<^verbatim>\<open>afterResponse\<close>
  hook is not caught: it ends the invocation and \<^verbatim>\<open>renderMiddleware\<close> rejects with it.
  The hooks do not run after the \<^verbatim>\<open>return\<close> on a redirection, nor when the catch block
  throws.
\<close>

theorem afterResponse_runs_after_try_catch:
  assumes "try_catch srv (initial_state rref req res0) = (s2, c2)"
    and "invoke srv ''afterResponse'' [ArgContext, ArgServer] s2 = (s3, c3)"
  shows "(c2 = Normal \<longrightarrow>
            fst (renderMiddleware srv rref req res0) = s3
            \<and> (\<exists>k\<le>length (filter (has_hook ''afterResponse'') (plugins srv)).
                 events s3 = events s2 @ map (\<lambda>p. Ev_hook ''afterResponse'' (plugin_id p))
                     (take k (filter (has_hook ''afterResponse'') (plugins srv)))
                 \<and> (c3 = Normal \<longrightarrow> k = length (filter (has_hook ''afterResponse'') (plugins srv))))
            \<and> (c3 = Normal \<longrightarrow> snd (renderMiddleware srv rref req res0)
                                  = Resolved (context (wld s3)) (response (wld s3)))
            \<and> (\<forall>e. c3 = Throw e \<longrightarrow> snd (renderMiddleware srv rref req res0) = Rejected e))
       \<and> (c2 = Return \<longrightarrow> renderMiddleware srv rref req res0 = (s2, Resolved_undefined))
       \<and> (\<forall>e. c2 = Throw e \<longrightarrow> renderMiddleware srv rref req res0 = (s2, Rejected e))"
proof -
  from invoke_events [of "''afterResponse''" srv "[ArgContext, ArgServer]" s2] assms(2)
  have a: "\<exists>k\<le>length (filter (has_hook ''afterResponse'') (plugins srv)).
                 events s3 = events s2 @ map (\<lambda>p. Ev_hook ''afterResponse'' (plugin_id p))
                     (take k (filter (has_hook ''afterResponse'') (plugins srv)))
                 \<and> (c3 = Normal \<longrightarrow> k = length (filter (has_hook ''afterResponse'') (plugins srv)))"
    by simp
  have b: "c3 \<noteq> Return"
    using invoke_not_Return [of srv "''afterResponse''" "[ArgContext, ArgServer]" s2] assms(2)
    by simp
  have c: "renderMiddleware srv rref req res0 =
      (case c2 of
         Normal \<Rightarrow> (case c3 of Throw e \<Rightarrow> (s3, Rejected e)
                    | _ \<Rightarrow> (s3, Resolved (context (wld s3)) (response (wld s3))))
       | Return \<Rightarrow> (s2, Resolved_undefined)
       | Throw e \<Rightarrow> (s2, Rejected e))"
    using assms by (simp add: renderMiddleware_def after_response_def split: completion.splits)
  from a b show ?thesis
    unfolding c by (cases c2; cases c3) simp_all
qed

theorem afterResponse_runs_after_try_catch_witness:
  "snd (renderMiddleware (server_of noting_plugins None) 0 \<lparr>req_url = ''/about''\<rparr> fresh_res)
     = Resolved \<lparr>data = [(''seen'', ''yes''), (''seen'', ''yes''), (''seen'', ''yes'')],
                 redirected = False, url = ''/about'', ctx_statusCode = None\<rparr>
                \<lparr>body = js ''<html><div>'', status = 200\<rparr>
   \<and> events (fst (renderMiddleware (server_of noting_plugins None) 0
       \<lparr>req_url = ''/about''\<rparr> fresh_res))
     = [Ev_hook ''beforeRender'' 1, Ev_render 0, Ev_renderSSRPage 0, Ev_hook ''rendered'' 1,
        Ev_end (js ''<html><div>''), Ev_hook ''afterResponse'' 2]"
proof -
  let ?srv = "server_of noting_plugins None"
  let ?t = "try_catch ?srv (initial_state 0 \<lparr>req_url = ''/about''\<rparr> fresh_res)"
  let ?a = "invoke ?srv ''afterResponse'' [ArgContext, ArgServer] (fst ?t)"
  have 1: "?t = (fst ?t, Normal)"
    by (simp add: pipeline_defs example_defs noting_plugins_def prod_eq_iff)
  have 2: "?a = (fst ?a, Normal)"
    by (simp add: pipeline_defs example_defs noting_plugins_def prod_eq_iff)
  have 3: "context (wld (fst ?a)) = \<lparr>data = [(''seen'', ''yes''), (''seen'', ''yes''), (''seen'', ''yes'')],
                 redirected = False, url = ''/about'', ctx_statusCode = None\<rparr>"
    "response (wld (fst ?a)) = \<lparr>body = js ''<html><div>'', status = 200\<rparr>"
    "events (fst ?a) = [Ev_hook ''beforeRender'' 1, Ev_render 0, Ev_renderSSRPage 0,
        Ev_hook ''rendered'' 1, Ev_end (js ''<html><div>''), Ev_hook ''afterResponse'' 2]"
    by (simp_all add: pipeline_defs example_defs noting_plugins_def js_def)
  from afterResponse_runs_after_try_catch [OF 1 2, THEN conjunct1] 3 show ?thesis
    by (simp add: prod_eq_iff)
qed

subsection \<open>Stopping the server\<close>

lemma stop_not_started: "\<not> started l \<Longrightarrow> stop l = (l, Normal)"
  by (simp add: stop_def)

lemma stop_started:
  "started l \<Longrightarrow>
     sigint_listeners (fst (stop l)) = 0 \<and> sigterm_listeners (fst (stop l)) = 0
     \<and> adapter (fst (stop l)) = adapter_stop (adapter l)
     \<and> adapter_stop_calls (fst (stop l)) = adapter_stop_calls l + 1
     \<and> snd (stop l) = Normal"
  by (simp add: stop_def)

lemma stop_keeps_started: "started (fst (stop l)) = started l"
  by (simp add: stop_def)

text \<open>
  C8. \<^verbatim>\<open>stop()\<close> does nothing unless \<^verbatim>\<open>started\<close> is set, and otherwise removes the
  signal listeners and calls the adapter's \<^verbatim>\<open>stop()\<close>; but it never resets
  \<^verbatim>\<open>started\<close>. After \<^verbatim>\<open>start()\<close> and \<^verbatim>\<open>stop()\<close> the flag is still set although the
  adapter is stopped, and a second \<^verbatim>\<open>stop()\<close> calls the adapter's \<^verbatim>\<open>stop()\<close> again.
\<close>

theorem stop_leaves_started_set:
  "started (fst (stop (fst (start Normal True new_server))))
   \<and> adapter (fst (stop (fst (start Normal True new_server)))) = Stopped
   \<and> sigint_listeners (fst (stop (fst (start Normal True new_server)))) = 0
   \<and> sigterm_listeners (fst (stop (fst (start Normal True new_server)))) = 0
   \<and> adapter_stop_calls (fst (stop (fst (start Normal True new_server)))) = 1
   \<and> adapter_stop_calls (fst (stop (fst (stop (fst (start Normal True new_server)))))) = 2"
  by (simp add: stop_def start_def adapter_start_def adapter_stop_def new_server_def)

end
